theory Spec2Isabelle
  imports Complex_Main
begin

section \<open>Data model\<close>

text \<open>
  The calculator of \<^verbatim>\<open>src/cpi_calculator/calculator.py\<close> reads three ClickHouse
  tables, \<^verbatim>\<open>categories(category_id, parent, weight)\<close>,
  \<^verbatim>\<open>products(product_id, category_id)\<close> and \<^verbatim>\<open>prices(product_id, price, date)\<close>.
  A \<^verbatim>\<open>datetime.date\<close> is its day number; identifiers are integers. Floating-point
  values are real numbers: rounding error, overflow and \<open>+inf\<close> are outside the model,
  while the two special values that the code can produce from real data, \<open>-inf\<close> from
  the logarithm of 0 and \<open>NaN\<close> from the logarithm of a negative number, are kept.
  A null (NaN in a pandas column, NULL in SQL) is \<open>None\<close>.
\<close>

type_synonym date = int

record category =
  category_id :: int
  parent :: "int option"
  weight :: real

record product =
  product_id :: int
  product_category_id :: int

text \<open>
  Modelled from the spec: the DDL of the table \<^verbatim>\<open>prices\<close> is not part of the
  repository. The spec's data model says the price "may be missing", and both
  computations test a price for null (\<^verbatim>\<open>notnull()\<close>, \<^verbatim>\<open>IS NOT NULL\<close>), so the column
  is taken as nullable.
\<close>

record price_row =
  price_product_id :: int
  price :: "real option"
  price_date :: date

record tables =
  categories_tbl :: "category list"
  products_tbl :: "product list"
  prices_tbl :: "price_row list"

datatype float64 = Fin real | NegInf | NaN

datatype error = QueryError string | KeyError date

text \<open>
  The ClickHouse client either raises on \<^verbatim>\<open>execute\<close> (with the exception's message)
  or evaluates the query on its tables. A query is given by what it computes.
\<close>

datatype clickhouse = Raises string | Serves tables

record cpi_calculator =
  clickhouse_client :: clickhouse
  categories :: "category list"
  products :: "product list"

definition execute_clickhouse_query :: "cpi_calculator \<Rightarrow> (tables \<Rightarrow> 'a) \<Rightarrow> error + 'a" where
  "execute_clickhouse_query self query =
     (case clickhouse_client self of
        Raises msg \<Rightarrow> Inl (QueryError msg)
      | Serves t \<Rightarrow> Inr (query t))"

text \<open>\<^verbatim>\<open>__init__\<close>: the category and product tables are read once.\<close>

definition init_calculator :: "clickhouse \<Rightarrow> error + cpi_calculator" where
  "init_calculator ch =
     (case ch of
        Raises msg \<Rightarrow> Inl (QueryError msg)
      | Serves t \<Rightarrow>
          Inr \<lparr>clickhouse_client = ch, categories = categories_tbl t, products = products_tbl t\<rparr>)"

section \<open>Floating-point helpers\<close>

text \<open>\<^verbatim>\<open>np.log\<close> and ClickHouse's \<^verbatim>\<open>log\<close>: \<open>-inf\<close> at 0, \<open>NaN\<close> below 0, no exception.\<close>

definition np_log :: "real \<Rightarrow> float64" where
  "np_log x = (if 0 < x then Fin (ln x) else if x = 0 then NegInf else NaN)"

text \<open>\<^verbatim>\<open>np.exp\<close> and \<^verbatim>\<open>EXP\<close>; the result is a number or NaN (\<open>None\<close>).\<close>

definition np_exp :: "float64 \<Rightarrow> real option" where
  "np_exp v = (case v of Fin x \<Rightarrow> Some (exp x) | NegInf \<Rightarrow> Some 0 | NaN \<Rightarrow> None)"

fun fin_values :: "float64 list \<Rightarrow> real list" where
  "fin_values [] = []"
| "fin_values (Fin x # vs) = x # fin_values vs"
| "fin_values (v # vs) = fin_values vs"

definition mean_of :: "float64 list \<Rightarrow> float64" where
  "mean_of vs =
     (if NegInf \<in> set vs then NegInf
      else Fin (sum_list (fin_values vs) / real (length vs)))"

text \<open>The group mean of pandas skips NaN; a group of NaN only has mean NaN.\<close>

definition mean_skipna :: "float64 list \<Rightarrow> float64" where
  "mean_skipna vs =
     (let xs = filter (\<lambda>v. v \<noteq> NaN) vs in if xs = [] then NaN else mean_of xs)"

text \<open>ClickHouse's \<^verbatim>\<open>avg\<close> over float values does not skip NaN.\<close>

definition ch_avg :: "float64 list \<Rightarrow> float64" where
  "ch_avg vs = (if NaN \<in> set vs then NaN else mean_of vs)"

definition nan_mul :: "real option \<Rightarrow> real \<Rightarrow> real option" where
  "nan_mul x w = (case x of None \<Rightarrow> None | Some v \<Rightarrow> Some (v * w))"

text \<open>\<^verbatim>\<open>Series.sum()\<close> skips NaN and is 0.0 on an empty series.\<close>

definition nansum :: "real option list \<Rightarrow> real" where
  "nansum xs = sum_list (List.map_filter id xs)"

text \<open>\<^verbatim>\<open>round(4)\<close>: numpy rounds the scaled value half to even.\<close>

definition rint :: "real \<Rightarrow> int" where
  "rint x =
     (let f = \<lfloor>x\<rfloor>; r = x - of_int f
      in if r < 1 / 2 then f else if 1 / 2 < r then f + 1 else if even f then f else f + 1)"

definition round4 :: "real \<Rightarrow> real" where
  "round4 x = of_int (rint (x * 10000)) / 10000"

section \<open>The daily series: \<^verbatim>\<open>compute_daily_cpi\<close>\<close>

subsection \<open>Leaf categories\<close>

record leaf_category =
  leaf_category_id :: int
  leaf_weight :: real

text \<open>
  \<^verbatim>\<open>categories[~categories['category_id'].isin(categories['parent'].dropna())]
        [['category_id', 'weight']]\<close>
\<close>

definition dropna :: "'a option list \<Rightarrow> 'a list" where
  "dropna xs = List.map_filter id xs"

definition leaf_categories :: "category list \<Rightarrow> leaf_category list" where
  "leaf_categories cats =
     map (\<lambda>c. \<lparr>leaf_category_id = category_id c, leaf_weight = weight c\<rparr>)
       (filter (\<lambda>c. category_id c \<notin> set (dropna (map parent cats))) cats)"

subsection \<open>Fetching and pivoting the prices\<close>

text \<open>\<^verbatim>\<open>pd.date_range(start_date, end_date, freq='D').date\<close>\<close>

definition date_range :: "date \<Rightarrow> date \<Rightarrow> date list" where
  "date_range start_date end_date = [start_date..end_date]"

text \<open>\<^verbatim>\<open>SELECT product_id, price, toDate(date) AS date FROM prices WHERE date IN (...)\<close>\<close>

definition prices_query :: "date list \<Rightarrow> tables \<Rightarrow> price_row list" where
  "prices_query date_tuple t = filter (\<lambda>r. price_date r \<in> set date_tuple) (prices_tbl t)"

definition load_prices_for_dates :: "cpi_calculator \<Rightarrow> date list \<Rightarrow> error + price_row list" where
  "load_prices_for_dates self date_tuple = execute_clickhouse_query self (prices_query date_tuple)"

text \<open>
  \<^verbatim>\<open>pivot_table(index='product_id', columns='date', values='price', aggfunc='first')\<close>:
  one cell per (product, date) group holding the group's first non-null price; a group
  with no non-null price is dropped, so the index and the columns are the products and
  the dates of the rows with a price, both sorted; every other cell is null.
\<close>

definition agg_first :: "price_row list \<Rightarrow> int \<Rightarrow> date \<Rightarrow> real option" where
  "agg_first rows p d =
     (case dropna (map price (filter (\<lambda>r. price_product_id r = p \<and> price_date r = d) rows)) of
        [] \<Rightarrow> None
      | v # _ \<Rightarrow> Some v)"

record pivot =
  pv_columns :: "date list"
  pv_rows :: "(int \<times> real option list) list"

definition pivot_table :: "price_row list \<Rightarrow> pivot" where
  "pivot_table rows =
     (let agged = filter (\<lambda>r. price r \<noteq> None) rows;
          idx = sort (remdups (map price_product_id agged));
          cols = sort (remdups (map price_date agged))
      in \<lparr>pv_columns = cols, pv_rows = map (\<lambda>p. (p, map (agg_first rows p) cols)) idx\<rparr>)"

text \<open>\<^verbatim>\<open>.ffill(axis=1)\<close>: along each row, a null cell takes the last non-null cell before it.\<close>

fun ffill_from :: "'a option \<Rightarrow> 'a option list \<Rightarrow> 'a option list" where
  "ffill_from prev [] = []"
| "ffill_from prev (None # xs) = prev # ffill_from prev xs"
| "ffill_from prev (Some v # xs) = Some v # ffill_from (Some v) xs"

definition ffill :: "pivot \<Rightarrow> pivot" where
  "ffill pv = pv\<lparr>pv_rows := map (\<lambda>(p, cells). (p, ffill_from None cells)) (pv_rows pv)\<rparr>"

text \<open>
  \<^verbatim>\<open>price_pivot[d]\<close>: the column labelled \<open>d\<close> as a series indexed by product, or
  \<^verbatim>\<open>KeyError\<close> when no column has that label.
\<close>

definition cell_at :: "date list \<Rightarrow> real option list \<Rightarrow> date \<Rightarrow> real option" where
  "cell_at cols cells d = (case map_of (zip cols cells) d of None \<Rightarrow> None | Some v \<Rightarrow> v)"

definition getitem :: "pivot \<Rightarrow> date \<Rightarrow> error + (int \<times> real option) list" where
  "getitem pv d =
     (if d \<in> set (pv_columns pv)
      then Inr (map (\<lambda>(p, cells). (p, cell_at (pv_columns pv) cells d)) (pv_rows pv))
      else Inl (KeyError d))"

subsection \<open>Merges\<close>

record merged_row =
  m_product_id :: int
  m_category_id :: int
  base_price :: "real option"
  m_weight :: real

text \<open>
  \<^verbatim>\<open>products.merge(base_prices, left_on='product_id', right_index=True)
          .merge(leaf_categories, on='category_id')\<close>: two inner joins in the order of the left rows.
\<close>

definition merge_base :: "product list \<Rightarrow> (int \<times> real option) list \<Rightarrow> (product \<times> real option) list" where
  "merge_base ps base_prices =
     concat (map (\<lambda>p. map (\<lambda>(i, b). (p, b)) (filter (\<lambda>(i, b). i = product_id p) base_prices)) ps)"

definition merge_leaf :: "(product \<times> real option) list \<Rightarrow> leaf_category list \<Rightarrow> merged_row list" where
  "merge_leaf xs leaf =
     concat (map (\<lambda>(p, b).
        map (\<lambda>c. \<lparr>m_product_id = product_id p, m_category_id = product_category_id p,
                  base_price = b, m_weight = leaf_weight c\<rparr>)
          (filter (\<lambda>c. leaf_category_id c = product_category_id p) leaf)) xs)"

text \<open>\<^verbatim>\<open>merged_data.merge(current_prices, left_on='product_id', right_index=True)\<close>\<close>

definition merge_current :: "merged_row list \<Rightarrow> (int \<times> real option) list \<Rightarrow> (merged_row \<times> real option) list" where
  "merge_current merged_data current_prices =
     concat (map (\<lambda>m. map (\<lambda>(i, c). (m, c)) (filter (\<lambda>(i, c). i = m_product_id m) current_prices))
       merged_data)"

subsection \<open>One date of the loop\<close>

text \<open>
  The rows kept by the mask \<^verbatim>\<open>(base_price > 0) & current_price.notnull()\<close>; on them both
  prices are numbers, and the two new columns are the ratio and its logarithm.
\<close>

record valid_row =
  v_product_id :: int
  v_category_id :: int
  v_base_price :: real
  v_current_price :: real
  v_weight :: real
  price_ratio :: real
  log_ratio :: float64

definition valid_of :: "merged_row \<times> real option \<Rightarrow> valid_row option" where
  "valid_of x =
     (case x of (m, current) \<Rightarrow>
        (case base_price m of
           None \<Rightarrow> None
         | Some b \<Rightarrow>
            (case current of
               None \<Rightarrow> None
             | Some c \<Rightarrow>
                 if 0 < b
                 then Some \<lparr>v_product_id = m_product_id m, v_category_id = m_category_id m,
                            v_base_price = b, v_current_price = c, v_weight = m_weight m,
                            price_ratio = c / b, log_ratio = np_log (c / b)\<rparr>
                 else None)))"

definition valid_data :: "(merged_row \<times> real option) list \<Rightarrow> valid_row list" where
  "valid_data daily_data = List.map_filter valid_of daily_data"

text \<open>\<^verbatim>\<open>valid_data.groupby('category_id')['log_ratio'].mean().apply(np.exp)\<close>\<close>

definition category_index :: "valid_row list \<Rightarrow> (int \<times> real option) list" where
  "category_index vd =
     map (\<lambda>k. (k, np_exp (mean_skipna (map log_ratio (filter (\<lambda>r. v_category_id r = k) vd)))))
       (sort (remdups (map v_category_id vd)))"

text \<open>
  \<^verbatim>\<open>category_index.reset_index(name='price_index').merge(leaf_categories, on='category_id')\<close>
  and \<^verbatim>\<open>(final_data['price_index'] * final_data['weight']).sum()\<close>
\<close>

definition final_data :: "(int \<times> real option) list \<Rightarrow> leaf_category list \<Rightarrow> (real option \<times> real) list" where
  "final_data ci leaf =
     concat (map (\<lambda>(k, price_index).
        map (\<lambda>c. (price_index, leaf_weight c)) (filter (\<lambda>c. leaf_category_id c = k) leaf)) ci)"

definition cpi_of_valid :: "valid_row list \<Rightarrow> leaf_category list \<Rightarrow> real" where
  "cpi_of_valid vd leaf =
     nansum (map (\<lambda>(price_index, w). nan_mul price_index w) (final_data (category_index vd) leaf))"

text \<open>
  The body of the loop up to \<^verbatim>\<open>valid_data\<close>: selecting the date's column raises
  \<^verbatim>\<open>KeyError\<close> when the pivot has no such column.
\<close>

definition valid_data_on :: "pivot \<Rightarrow> merged_row list \<Rightarrow> date \<Rightarrow> error + valid_row list" where
  "valid_data_on price_pivot merged_data current_date =
     (case getitem price_pivot current_date of
        Inl e \<Rightarrow> Inl e
      | Inr current_prices \<Rightarrow> Inr (valid_data (merge_current merged_data current_prices)))"

definition cpi_on_date :: "pivot \<Rightarrow> leaf_category list \<Rightarrow> merged_row list \<Rightarrow> date \<Rightarrow> error + real" where
  "cpi_on_date price_pivot leaf merged_data current_date =
     (case valid_data_on price_pivot merged_data current_date of
        Inl e \<Rightarrow> Inl e
      | Inr vd \<Rightarrow> Inr (cpi_of_valid vd leaf))"

subsection \<open>The loop and the whole computation\<close>

text \<open>Lines 112 to 120: the fetched rows, pivoted and forward-filled.\<close>

definition price_pivot_for :: "cpi_calculator \<Rightarrow> date \<Rightarrow> date \<Rightarrow> error + pivot" where
  "price_pivot_for self start_date end_date =
     (case load_prices_for_dates self (date_range start_date end_date) of
        Inl e \<Rightarrow> Inl e
      | Inr price_data \<Rightarrow> Inr (ffill (pivot_table price_data)))"

text \<open>Lines 122 to 131: the base prices are the column of the start date.\<close>

definition merged_data_for :: "cpi_calculator \<Rightarrow> pivot \<Rightarrow> date \<Rightarrow> error + merged_row list" where
  "merged_data_for self price_pivot start_date =
     (case getitem price_pivot start_date of
        Inl e \<Rightarrow> Inl e
      | Inr base_prices \<Rightarrow>
          Inr (merge_leaf (merge_base (products self) base_prices) (leaf_categories (categories self))))"

fun daily_loop :: "pivot \<Rightarrow> leaf_category list \<Rightarrow> merged_row list \<Rightarrow> date list \<Rightarrow> error + (date \<times> real) list" where
  "daily_loop price_pivot leaf merged_data [] = Inr []"
| "daily_loop price_pivot leaf merged_data (d # ds) =
     (case cpi_on_date price_pivot leaf merged_data d of
        Inl e \<Rightarrow> Inl e
      | Inr v \<Rightarrow>
          (case daily_loop price_pivot leaf merged_data ds of
             Inl e \<Rightarrow> Inl e
           | Inr rest \<Rightarrow> Inr ((d, v) # rest)))"

definition compute_daily_cpi :: "cpi_calculator \<Rightarrow> date \<Rightarrow> date \<Rightarrow> error + (date \<times> real) list" where
  "compute_daily_cpi self start_date end_date =
     (case price_pivot_for self start_date end_date of
        Inl e \<Rightarrow> Inl e
      | Inr price_pivot \<Rightarrow>
         (case merged_data_for self price_pivot start_date of
            Inl e \<Rightarrow> Inl e
          | Inr merged_data \<Rightarrow>
             (case daily_loop price_pivot (leaf_categories (categories self)) merged_data
                     (date_range start_date end_date) of
                Inl e \<Rightarrow> Inl e
              | Inr cpi_series \<Rightarrow> Inr (map (\<lambda>(d, v). (d, round4 v)) cpi_series))))"

section \<open>The single-point query: \<^verbatim>\<open>compute_cpi\<close>\<close>

text \<open>
  The computation is one SQL statement run by ClickHouse; each common table expression
  is a definition. \<^verbatim>\<open>leaf_categories\<close>:
  \<^verbatim>\<open>WHERE category_id NOT IN (SELECT parent FROM categories WHERE parent != -1)\<close>;
  a null parent does not pass \<^verbatim>\<open>parent != -1\<close>.
\<close>

definition sql_leaf_categories :: "tables \<Rightarrow> leaf_category list" where
  "sql_leaf_categories t =
     map (\<lambda>c. \<lparr>leaf_category_id = category_id c, leaf_weight = weight c\<rparr>)
       (filter (\<lambda>c. category_id c \<notin> set (filter (\<lambda>p. p \<noteq> - 1) (dropna (map parent (categories_tbl t)))))
          (categories_tbl t))"

text \<open>
  \<^verbatim>\<open>MAXIf(price, toDate(date) = toDate(d))\<close> within the group of one product: the
  greatest non-null price of the rows dated \<open>d\<close>, NULL when there is none (the
  aggregate of a nullable column).
\<close>

definition max_if :: "price_row list \<Rightarrow> int \<Rightarrow> date \<Rightarrow> real option" where
  "max_if rows p d =
     (case dropna (map price (filter (\<lambda>r. price_product_id r = p \<and> price_date r = d) rows)) of
        [] \<Rightarrow> None
      | v # vs \<Rightarrow> Some (fold max vs v))"

record price_data_row =
  pd_product_id :: int
  pd_base_price :: "real option"
  report_price :: "real option"

text \<open>\<^verbatim>\<open>price_data\<close>: \<^verbatim>\<open>FROM prices WHERE date IN (start, end) GROUP BY product_id\<close>\<close>

definition sql_price_data :: "date \<Rightarrow> date \<Rightarrow> tables \<Rightarrow> price_data_row list" where
  "sql_price_data start_date end_date t =
     (let rows = filter (\<lambda>r. price_date r = start_date \<or> price_date r = end_date) (prices_tbl t)
      in map (\<lambda>p. \<lparr>pd_product_id = p, pd_base_price = max_if rows p start_date,
                    report_price = max_if rows p end_date\<rparr>)
           (remdups (map price_product_id rows)))"

text \<open>
  \<^verbatim>\<open>category_cpi\<close>: products joined with \<^verbatim>\<open>price_data\<close> and \<^verbatim>\<open>leaf_categories\<close>,
  \<^verbatim>\<open>WHERE pd.base_price > 0 AND pd.report_price IS NOT NULL\<close>, grouped by category with
  \<^verbatim>\<open>EXP(avg(log(pd.report_price / pd.base_price)))\<close>.
\<close>

definition sql_log_ratio :: "price_data_row \<Rightarrow> float64 option" where
  "sql_log_ratio pd =
     (case pd_base_price pd of
        None \<Rightarrow> None
      | Some b \<Rightarrow>
         (case report_price pd of
            None \<Rightarrow> None
          | Some r \<Rightarrow> if 0 < b then Some (np_log (r / b)) else None))"

record joined_row =
  j_product_id :: int
  j_category_id :: int
  j_log_ratio :: float64

definition sql_joined :: "date \<Rightarrow> date \<Rightarrow> tables \<Rightarrow> joined_row list" where
  "sql_joined start_date end_date t =
     concat (map (\<lambda>p.
        concat (map (\<lambda>pd.
           (case sql_log_ratio pd of
              None \<Rightarrow> []
            | Some l \<Rightarrow>
                map (\<lambda>lc. \<lparr>j_product_id = product_id p, j_category_id = product_category_id p,
                           j_log_ratio = l\<rparr>)
                  (filter (\<lambda>lc. leaf_category_id lc = product_category_id p) (sql_leaf_categories t))))
          (filter (\<lambda>pd. pd_product_id pd = product_id p) (sql_price_data start_date end_date t))))
       (products_tbl t))"

definition sql_category_cpi :: "joined_row list \<Rightarrow> (int \<times> real option) list" where
  "sql_category_cpi js =
     map (\<lambda>k. (k, np_exp (ch_avg (map j_log_ratio (filter (\<lambda>j. j_category_id j = k) js)))))
       (remdups (map j_category_id js))"

text \<open>
  \<^verbatim>\<open>SELECT SUM(cc.price_index * lc.weight) FROM category_cpi cc JOIN leaf_categories lc\<close>:
  NULL over no row, NaN as soon as one term is NaN.
\<close>

definition ch_sum :: "real option list \<Rightarrow> float64 option" where
  "ch_sum terms =
     (if terms = [] then None
      else Some (if None \<in> set terms then NaN else Fin (sum_list (dropna terms))))"

definition cpi_query :: "date \<Rightarrow> date \<Rightarrow> tables \<Rightarrow> float64 option list" where
  "cpi_query start_date end_date t =
     [ch_sum (map (\<lambda>(price_index, w). nan_mul price_index w)
        (final_data (sql_category_cpi (sql_joined start_date end_date t)) (sql_leaf_categories t)))]"

text \<open>
  \<^verbatim>\<open>compute_cpi\<close> returns \<^verbatim>\<open>result[0][0] if result else None\<close> and, on any exception,
  prints the failure and returns \<^verbatim>\<open>None\<close>. The result is the printed lines and the
  returned value; a result row is its one cell.
\<close>

datatype console_line = CPI_SQL_failed error

definition compute_cpi :: "cpi_calculator \<Rightarrow> date \<Rightarrow> date \<Rightarrow> console_line list \<times> float64 option" where
  "compute_cpi self start_date end_date =
     (case execute_clickhouse_query self (cpi_query start_date end_date) of
        Inl e \<Rightarrow> ([CPI_SQL_failed e], None)
      | Inr result \<Rightarrow> ([], case result of [] \<Rightarrow> None | cell # _ \<Rightarrow> cell))"

section \<open>The claims' notions and concrete inputs\<close>



text \<open>
  The scenario of the specification: leaf categories A (id 1, weight 0.6) and B (id 2,
  weight 0.4), product 1 in A and product 2 in B, prices on day 0 and day 1.
\<close>

definition scenario_categories :: "category list" where
  "scenario_categories =
     [\<lparr>category_id = 1, parent = None, weight = 6 / 10\<rparr>,
      \<lparr>category_id = 2, parent = None, weight = 4 / 10\<rparr>]"

definition scenario_products :: "product list" where
  "scenario_products =
     [\<lparr>product_id = 1, product_category_id = 1\<rparr>, \<lparr>product_id = 2, product_category_id = 2\<rparr>]"

definition scenario_prices :: "price_row list" where
  "scenario_prices =
     [\<lparr>price_product_id = 1, price = Some 10, price_date = 0\<rparr>,
      \<lparr>price_product_id = 1, price = Some 11, price_date = 1\<rparr>,
      \<lparr>price_product_id = 2, price = Some 20, price_date = 0\<rparr>,
      \<lparr>price_product_id = 2, price = Some 20, price_date = 1\<rparr>]"

definition scenario_tables :: tables where
  "scenario_tables =
     \<lparr>categories_tbl = scenario_categories, products_tbl = scenario_products,
      prices_tbl = scenario_prices\<rparr>"

definition scenario_calculator :: cpi_calculator where
  "scenario_calculator =
     \<lparr>clickhouse_client = Serves scenario_tables, categories = scenario_categories,
      products = scenario_products\<rparr>"

text \<open>A calculator whose client raises on every query.\<close>

definition failing_calculator :: cpi_calculator where
  "failing_calculator =
     \<lparr>clickhouse_client = Raises ''connection refused'', categories = scenario_categories,
      products = scenario_products\<rparr>"






text \<open>The scenario with product 1 priced 0 on day 0.\<close>

definition zero_base_calculator :: cpi_calculator where
  "zero_base_calculator =
     \<lparr>clickhouse_client = Serves
        \<lparr>categories_tbl = scenario_categories, products_tbl = scenario_products,
         prices_tbl =
           [\<lparr>price_product_id = 1, price = Some 0, price_date = 0\<rparr>,
            \<lparr>price_product_id = 1, price = Some 5, price_date = 1\<rparr>,
            \<lparr>price_product_id = 2, price = Some 20, price_date = 0\<rparr>,
            \<lparr>price_product_id = 2, price = Some 22, price_date = 1\<rparr>]\<rparr>,
      categories = scenario_categories, products = scenario_products\<rparr>"

definition zero_base_pivot :: pivot where
  "zero_base_pivot =
     \<lparr>pv_columns = [0, 1], pv_rows = [(1, [Some 0, Some 5]), (2, [Some 20, Some 22])]\<rparr>"

definition zero_base_merged :: "merged_row list" where
  "zero_base_merged =
     [\<lparr>m_product_id = 1, m_category_id = 1, base_price = Some 0, m_weight = 6 / 10\<rparr>,
      \<lparr>m_product_id = 2, m_category_id = 2, base_price = Some 20, m_weight = 4 / 10\<rparr>]"

definition zero_base_valid :: valid_row where
  "zero_base_valid =
     \<lparr>v_product_id = 2, v_category_id = 2, v_base_price = 20, v_current_price = 22,
      v_weight = 4 / 10, price_ratio = 22 / 20, log_ratio = Fin (ln (22 / 20))\<rparr>"

text \<open>
  The scenario with product 1 observed the day before the start (day -1) and on day 1,
  but not on day 0.
\<close>

definition earlier_tables :: tables where
  "earlier_tables =
     \<lparr>categories_tbl = scenario_categories, products_tbl = scenario_products,
      prices_tbl =
        [\<lparr>price_product_id = 1, price = Some 10, price_date = - 1\<rparr>,
         \<lparr>price_product_id = 1, price = Some 12, price_date = 1\<rparr>,
         \<lparr>price_product_id = 2, price = Some 20, price_date = 0\<rparr>,
         \<lparr>price_product_id = 2, price = Some 20, price_date = 1\<rparr>]\<rparr>"

definition earlier_calculator :: cpi_calculator where
  "earlier_calculator =
     \<lparr>clickhouse_client = Serves earlier_tables, categories = scenario_categories,
      products = scenario_products\<rparr>"

definition earlier_pivot :: pivot where
  "earlier_pivot =
     \<lparr>pv_columns = [0, 1], pv_rows = [(1, [None, Some 12]), (2, [Some 20, Some 20])]\<rparr>"

text \<open>The scenario with product 1 observed on day 0 only.\<close>

definition carry_tables :: tables where
  "carry_tables =
     \<lparr>categories_tbl = scenario_categories, products_tbl = scenario_products,
      prices_tbl =
        [\<lparr>price_product_id = 1, price = Some 10, price_date = 0\<rparr>,
         \<lparr>price_product_id = 2, price = Some 20, price_date = 0\<rparr>,
         \<lparr>price_product_id = 2, price = Some 21, price_date = 1\<rparr>]\<rparr>"

definition carry_calculator :: cpi_calculator where
  "carry_calculator =
     \<lparr>clickhouse_client = Serves carry_tables, categories = scenario_categories,
      products = scenario_products\<rparr>"

definition carry_pivot :: pivot where
  "carry_pivot =
     \<lparr>pv_columns = [0, 1], pv_rows = [(1, [Some 10, Some 10]), (2, [Some 20, Some 21])]\<rparr>"

text \<open>
  The rows of \<^verbatim>\<open>valid_data\<close> of one category, and the value that \<^verbatim>\<open>sum()\<close> gives a NaN
  term.
\<close>

definition survivors :: "valid_row list \<Rightarrow> int \<Rightarrow> valid_row list" where
  "survivors vd k = filter (\<lambda>r. v_category_id r = k) vd"

definition nan_as_zero :: "real option \<Rightarrow> real" where
  "nan_as_zero x = (case x of None \<Rightarrow> 0 | Some v \<Rightarrow> v)"

text \<open>The intermediate tables of the scenario, for day 1.\<close>

definition scenario_pivot :: pivot where
  "scenario_pivot =
     \<lparr>pv_columns = [0, 1], pv_rows = [(1, [Some 10, Some 11]), (2, [Some 20, Some 20])]\<rparr>"

definition scenario_merged :: "merged_row list" where
  "scenario_merged =
     [\<lparr>m_product_id = 1, m_category_id = 1, base_price = Some 10, m_weight = 6 / 10\<rparr>,
      \<lparr>m_product_id = 2, m_category_id = 2, base_price = Some 20, m_weight = 4 / 10\<rparr>]"

definition scenario_valid :: "valid_row list" where
  "scenario_valid =
     [\<lparr>v_product_id = 1, v_category_id = 1, v_base_price = 10, v_current_price = 11,
       v_weight = 6 / 10, price_ratio = 11 / 10, log_ratio = Fin (ln (11 / 10))\<rparr>,
      \<lparr>v_product_id = 2, v_category_id = 2, v_base_price = 20, v_current_price = 20,
       v_weight = 4 / 10, price_ratio = 1, log_ratio = Fin 0\<rparr>]"

text \<open>The scenario without product 2: category B has no product.\<close>

definition lonely_tables :: tables where
  "lonely_tables =
     \<lparr>categories_tbl = scenario_categories,
      products_tbl = [\<lparr>product_id = 1, product_category_id = 1\<rparr>],
      prices_tbl = [\<lparr>price_product_id = 1, price = Some 10, price_date = 0\<rparr>]\<rparr>"

definition lonely_calculator :: cpi_calculator where
  "lonely_calculator =
     \<lparr>clickhouse_client = Serves lonely_tables, categories = scenario_categories,
      products = [\<lparr>product_id = 1, product_category_id = 1\<rparr>]\<rparr>"

text \<open>
  A product has a price observation on a date: some row of the product dated exactly
  that date carries a price. The products table without one product.
\<close>

definition observed :: "price_row list \<Rightarrow> int \<Rightarrow> date \<Rightarrow> bool" where
  "observed rows p d =
     (\<exists>r \<in> set rows. price_product_id r = p \<and> price_date r = d \<and> price r \<noteq> None)"

definition without_product :: "tables \<Rightarrow> int \<Rightarrow> tables" where
  "without_product t p = t\<lparr>products_tbl := filter (\<lambda>r. product_id r \<noteq> p) (products_tbl t)\<rparr>"

text \<open>
  The merged rows of the last tables and their surviving rows on day 1. Then the
  scenario with prices on day 0 and day 2 only.
\<close>

definition carry_merged :: "merged_row list" where
  "carry_merged =
     [\<lparr>m_product_id = 1, m_category_id = 1, base_price = Some 10, m_weight = 6 / 10\<rparr>,
      \<lparr>m_product_id = 2, m_category_id = 2, base_price = Some 20, m_weight = 4 / 10\<rparr>]"

definition carry_valid :: "valid_row list" where
  "carry_valid =
     [\<lparr>v_product_id = 1, v_category_id = 1, v_base_price = 10, v_current_price = 10,
       v_weight = 6 / 10, price_ratio = 10 / 10, log_ratio = np_log (10 / 10)\<rparr>,
      \<lparr>v_product_id = 2, v_category_id = 2, v_base_price = 20, v_current_price = 21,
       v_weight = 4 / 10, price_ratio = 21 / 20, log_ratio = np_log (21 / 20)\<rparr>]"

definition gap_tables :: tables where
  "gap_tables =
     \<lparr>categories_tbl = scenario_categories, products_tbl = scenario_products,
      prices_tbl =
        [\<lparr>price_product_id = 1, price = Some 10, price_date = 0\<rparr>,
         \<lparr>price_product_id = 2, price = Some 20, price_date = 0\<rparr>,
         \<lparr>price_product_id = 1, price = Some 12, price_date = 2\<rparr>,
         \<lparr>price_product_id = 2, price = Some 22, price_date = 2\<rparr>]\<rparr>"

definition gap_calculator :: cpi_calculator where
  "gap_calculator =
     \<lparr>clickhouse_client = Serves gap_tables, categories = scenario_categories,
      products = scenario_products\<rparr>"

section \<open>Properties\<close>

subsection \<open>Evaluation and basic facts\<close>

lemma upto_0_1: "[0..1::int] = [0, 1]"
  by (simp add: upto.simps)

lemma upto_0_2: "[0..2::int] = [0, 1, 2]"
  by (simp add: upto.simps)

lemmas daily_defs =
  compute_daily_cpi_def price_pivot_for_def merged_data_for_def load_prices_for_dates_def
  execute_clickhouse_query_def prices_query_def date_range_def leaf_categories_def dropna_def
  List.map_filter_simps pivot_table_def agg_first_def ffill_def getitem_def cell_at_def
  merge_base_def merge_leaf_def cpi_on_date_def valid_data_on_def merge_current_def
  valid_data_def valid_of_def category_index_def final_data_def cpi_of_valid_def np_log_def
  np_exp_def mean_skipna_def mean_of_def nansum_def nan_mul_def round4_def rint_def

lemmas scenario_defs =
  scenario_calculator_def scenario_tables_def scenario_categories_def scenario_products_def
  scenario_prices_def

lemma set_dropna: "set (dropna xs) = {x. Some x \<in> set xs}"
  by (induction xs) (auto simp: dropna_def List.map_filter_simps split: option.splits)

lemma getitem_KeyError: "d \<notin> set (pv_columns pv) \<Longrightarrow> getitem pv d = Inl (KeyError d)"
  by (simp add: getitem_def)

lemma cpi_on_date_KeyError:
  "d \<notin> set (pv_columns pv) \<Longrightarrow> cpi_on_date pv leaf md d = Inl (KeyError d)"
  by (simp add: cpi_on_date_def valid_data_on_def getitem_KeyError)

lemma cpi_on_date_Inr:
  "d \<in> set (pv_columns pv) \<Longrightarrow> \<exists>v. cpi_on_date pv leaf md d = Inr v"
  by (simp add: cpi_on_date_def valid_data_on_def getitem_def)

lemma daily_loop_KeyError:
  "d \<in> set ds \<Longrightarrow> d \<notin> set (pv_columns pv) \<Longrightarrow>
     \<exists>d' \<in> set ds. daily_loop pv leaf md ds = Inl (KeyError d')"
proof (induction ds)
  case Nil
  then show ?case by simp
next
  case (Cons x xs)
  show ?case
  proof (cases "x \<in> set (pv_columns pv)")
    case False
    then show ?thesis by (simp add: cpi_on_date_KeyError)
  next
    case True
    then obtain v where v: "cpi_on_date pv leaf md x = Inr v"
      using cpi_on_date_Inr by blast
    from True Cons.prems have "d \<in> set xs" by auto
    from Cons.IH[OF this Cons.prems(2)] obtain d' where
      "d' \<in> set xs" "daily_loop pv leaf md xs = Inl (KeyError d')" by blast
    then show ?thesis using v by auto
  qed
qed

lemma daily_loop_append_Inl:
  "daily_loop pv leaf md xs = Inl err \<Longrightarrow> daily_loop pv leaf md (xs @ ys) = Inl err"
  by (induction xs) (auto split: sum.splits)

lemma pv_columns_ffill [simp]: "pv_columns (ffill pv) = pv_columns pv"
  by (simp add: ffill_def)

lemma set_pivot_columns:
  "set (pv_columns (pivot_table rows)) = {price_date r |r. r \<in> set rows \<and> price r \<noteq> None}"
  by (auto simp: pivot_table_def Let_def)

lemma upto_split_at: "s \<le> d \<Longrightarrow> d \<le> e \<Longrightarrow> [s..e] = [s..d] @ [d + 1..e]"
  using upto_split2[of s d e] by simp

subsection \<open>The scenario of the specification\<close>

text \<open>
  C3. On the scenario (leaf categories A and B with weights 0.6 and 0.4, product 1 in A at
  10 then 11, product 2 in B at 20 then 20), the series from day 0 to day 1 is 1.0 on
  day 0 and \<open>(11/10) * 0.6 + (20/20) * 0.4 = 1.06\<close> on day 1.
\<close>

theorem scenario_daily_cpi:
  "compute_daily_cpi scenario_calculator 0 1 = Inr [(0, 1), (1, 106 / 100)]"
  by (simp add: daily_defs scenario_defs upto_0_1)

subsection \<open>Query failures\<close>

text \<open>
  C8. When the query raises, \<^verbatim>\<open>compute_cpi\<close> prints the failure and returns
  \<^verbatim>\<open>None\<close>, while \<^verbatim>\<open>compute_daily_cpi\<close> lets the exception out of the call.
\<close>

theorem query_failure_handling:
  "clickhouse_client self = Raises msg \<Longrightarrow>
     compute_cpi self s e = ([CPI_SQL_failed (QueryError msg)], None) \<and>
     compute_daily_cpi self s e = Inl (QueryError msg)"
  by (simp add: compute_cpi_def compute_daily_cpi_def price_pivot_for_def
      load_prices_for_dates_def execute_clickhouse_query_def)

theorem query_failure_handling_witness:
  "clickhouse_client failing_calculator = Raises ''connection refused'' \<and>
   compute_cpi failing_calculator 0 1 = ([CPI_SQL_failed (QueryError ''connection refused'')], None) \<and>
   compute_daily_cpi failing_calculator 0 1 = Inl (QueryError ''connection refused'')"
  using query_failure_handling[of failing_calculator "''connection refused''" 0 1]
  by (simp add: failing_calculator_def)

subsection \<open>Leaf categories\<close>




subsection \<open>A date without any price row\<close>

text \<open>
  C10. When the query succeeds and some date \<open>d\<close> of the range has no price row at all,
  the call raises \<^verbatim>\<open>KeyError\<close> at the first date of the range, not later than \<open>d\<close>,
  that the pivoted table has no column for; no series is returned.
\<close>

theorem missing_date_raises:
  assumes "clickhouse_client self = Serves t" and "s \<le> d" and "d \<le> e"
    and "\<forall>r \<in> set (prices_tbl t). price_date r \<noteq> d"
  shows "\<exists>d'. s \<le> d' \<and> d' \<le> d \<and> compute_daily_cpi self s e = Inl (KeyError d')"
proof -
  define pv where "pv = ffill (pivot_table (prices_query (date_range s e) t))"
  have pp: "price_pivot_for self s e = Inr pv"
    using assms(1) by (simp add: price_pivot_for_def load_prices_for_dates_def
        execute_clickhouse_query_def pv_def)
  have nd: "d \<notin> set (pv_columns pv)"
    using assms(4) by (auto simp: pv_def set_pivot_columns prices_query_def)
  show ?thesis
  proof (cases "s \<in> set (pv_columns pv)")
    case False
    then have "compute_daily_cpi self s e = Inl (KeyError s)"
      by (simp add: compute_daily_cpi_def pp merged_data_for_def getitem_KeyError)
    then show ?thesis using assms(2) by auto
  next
    case True
    then obtain md where md: "merged_data_for self pv s = Inr md"
      by (simp add: merged_data_for_def getitem_def)
    have "d \<in> set [s..d]" using assms(2) by simp
    from daily_loop_KeyError[OF this nd] obtain d' where
      d': "d' \<in> set [s..d]"
      "daily_loop pv (leaf_categories (categories self)) md [s..d] = Inl (KeyError d')"
      by blast
    have "daily_loop pv (leaf_categories (categories self)) md (date_range s e) = Inl (KeyError d')"
      unfolding date_range_def upto_split_at[OF assms(2,3)]
      by (rule daily_loop_append_Inl[OF d'(2)])
    then have "compute_daily_cpi self s e = Inl (KeyError d')"
      by (simp add: compute_daily_cpi_def pp md)
    then show ?thesis using d'(1) by auto
  qed
qed

theorem missing_date_raises_witness:
  "clickhouse_client scenario_calculator = Serves scenario_tables \<and> (0::int) \<le> 2 \<and> (2::int) \<le> 2 \<and>
   map price_date (prices_tbl scenario_tables) = [0, 1, 0, 1] \<and>
   compute_daily_cpi scenario_calculator 0 2 = Inl (KeyError 2)"
proof -
  have m: "map price_date (prices_tbl scenario_tables) = [0, 1, 0, 1]"
    by (simp add: scenario_defs)
  have h: "\<forall>r \<in> set (prices_tbl scenario_tables). price_date r \<noteq> 2"
    by (simp add: scenario_defs)
  have c: "clickhouse_client scenario_calculator = Serves scenario_tables"
    by (simp add: scenario_calculator_def)
  from missing_date_raises[OF c _ _ h, of 0 2] obtain d' where
    "compute_daily_cpi scenario_calculator 0 2 = Inl (KeyError d')" by auto
  moreover have "compute_daily_cpi scenario_calculator 0 2 = Inl (KeyError 2)"
    by (simp add: daily_defs scenario_defs upto_0_2)
  ultimately show ?thesis using m c by simp
qed

subsection \<open>Tables, merges and surviving rows\<close>

lemma set_merge_base:
  "set (merge_base ps base) = {(p, b). p \<in> set ps \<and> (product_id p, b) \<in> set base}"
  by (auto simp: merge_base_def)

lemma set_merge_leaf:
  "set (merge_leaf xs leaf) =
     {\<lparr>m_product_id = product_id p, m_category_id = product_category_id p, base_price = b,
       m_weight = leaf_weight c\<rparr> |p b c.
       (p, b) \<in> set xs \<and> c \<in> set leaf \<and> leaf_category_id c = product_category_id p}"
  by (auto simp: merge_leaf_def)

lemma set_merge_current:
  "set (merge_current md cur) = {(m, c). m \<in> set md \<and> (m_product_id m, c) \<in> set cur}"
  by (auto simp: merge_current_def)

lemma set_map_filter: "set (List.map_filter f xs) = {y. \<exists>x \<in> set xs. f x = Some y}"
  by (induction xs) (auto simp: List.map_filter_simps split: option.splits)

lemma set_valid_data:
  "set (valid_data dd) = {r. \<exists>x \<in> set dd. valid_of x = Some r}"
  by (simp add: valid_data_def set_map_filter)

lemma valid_of_Some:
  "valid_of (m, c) = Some r \<longleftrightarrow>
     (\<exists>b x. base_price m = Some b \<and> c = Some x \<and> 0 < b \<and>
        r = \<lparr>v_product_id = m_product_id m, v_category_id = m_category_id m,
              v_base_price = b, v_current_price = x, v_weight = m_weight m,
              price_ratio = x / b, log_ratio = np_log (x / b)\<rparr>)"
  by (auto simp: valid_of_def split: option.splits)

lemma map_fst_pivot_rows:
  "map fst (pv_rows (ffill (pivot_table rows))) =
     sort (remdups (map price_product_id (filter (\<lambda>r. price r \<noteq> None) rows)))"
  by (simp add: ffill_def pivot_table_def Let_def comp_def case_prod_unfold)

lemma getitem_Inr:
  "getitem pv d = Inr col \<longleftrightarrow>
     d \<in> set (pv_columns pv) \<and>
     col = map (\<lambda>(p, cells). (p, cell_at (pv_columns pv) cells d)) (pv_rows pv)"
  by (auto simp: getitem_def)

lemma map_fst_getitem: "getitem pv d = Inr col \<Longrightarrow> map fst col = map fst (pv_rows pv)"
  by (auto simp: getitem_Inr comp_def case_prod_unfold)

lemma price_pivot_for_Inr:
  "price_pivot_for self s e = Inr pv \<longleftrightarrow>
     (\<exists>t. clickhouse_client self = Serves t \<and>
        pv = ffill (pivot_table (prices_query (date_range s e) t)))"
  by (auto simp: price_pivot_for_def load_prices_for_dates_def execute_clickhouse_query_def
      split: clickhouse.splits)

lemma distinct_getitem:
  "price_pivot_for self s e = Inr pv \<Longrightarrow> getitem pv d = Inr col \<Longrightarrow> distinct (map fst col)"
  by (auto simp: price_pivot_for_Inr map_fst_getitem map_fst_pivot_rows)

lemma series_unique:
  "distinct (map fst col) \<Longrightarrow> (p, a) \<in> set col \<Longrightarrow> (p, b) \<in> set col \<Longrightarrow> a = b"
  by (meson eq_key_imp_eq_value)

lemma merged_data_for_Inr:
  "merged_data_for self pv s = Inr md \<longleftrightarrow>
     (\<exists>base_prices. getitem pv s = Inr base_prices \<and>
        md = merge_leaf (merge_base (products self) base_prices) (leaf_categories (categories self)))"
  by (auto simp: merged_data_for_def split: sum.splits)

lemma valid_data_on_Inr:
  "valid_data_on pv md d = Inr vd \<longleftrightarrow>
     (\<exists>cur. getitem pv d = Inr cur \<and> vd = valid_data (merge_current md cur))"
  by (auto simp: valid_data_on_def split: sum.splits)

text \<open>Every surviving row: where it comes from.\<close>

lemma valid_row_origin:
  assumes "getitem pv s = Inr base_prices"
    and "merged_data_for self pv s = Inr md"
    and "getitem pv d = Inr cur"
    and "valid_data_on pv md d = Inr vd"
    and "r \<in> set vd"
  shows "\<exists>p c. p \<in> set (products self) \<and> c \<in> set (leaf_categories (categories self)) \<and>
           leaf_category_id c = product_category_id p \<and>
           v_product_id r = product_id p \<and> v_category_id r = product_category_id p \<and>
           v_weight r = leaf_weight c \<and>
           (product_id p, Some (v_base_price r)) \<in> set base_prices \<and>
           (product_id p, Some (v_current_price r)) \<in> set cur \<and>
           0 < v_base_price r \<and>
           price_ratio r = v_current_price r / v_base_price r \<and>
           log_ratio r = np_log (v_current_price r / v_base_price r)"
proof -
  from assms(2) assms(1) have md: "md = merge_leaf (merge_base (products self) base_prices)
      (leaf_categories (categories self))"
    by (auto simp: merged_data_for_Inr)
  from assms(4) assms(3) have vd: "vd = valid_data (merge_current md cur)"
    by (auto simp: valid_data_on_Inr)
  from assms(5) obtain m c where mc: "(m, c) \<in> set (merge_current md cur)" "valid_of (m, c) = Some r"
    unfolding vd set_valid_data by auto
  from mc(1) have m: "m \<in> set md" "(m_product_id m, c) \<in> set cur"
    by (auto simp: set_merge_current)
  from m(1) obtain p b lc where p: "p \<in> set (products self)" "(product_id p, b) \<in> set base_prices"
    "lc \<in> set (leaf_categories (categories self))" "leaf_category_id lc = product_category_id p"
    "m = \<lparr>m_product_id = product_id p, m_category_id = product_category_id p, base_price = b,
       m_weight = leaf_weight lc\<rparr>"
    unfolding md set_merge_leaf set_merge_base by auto
  from mc(2) obtain b' x where v: "base_price m = Some b'" "c = Some x" "0 < b'"
    "r = \<lparr>v_product_id = m_product_id m, v_category_id = m_category_id m,
              v_base_price = b', v_current_price = x, v_weight = m_weight m,
              price_ratio = x / b', log_ratio = np_log (x / b')\<rparr>"
    unfolding valid_of_Some by auto
  show ?thesis
    using p v m(2) by (intro exI[of _ p] exI[of _ lc]) auto
qed

lemma length_ffill_from [simp]: "length (ffill_from c xs) = length xs"
  by (induction c xs rule: ffill_from.induct) auto

lemma ffill_skip_prefix:
  "d \<notin> set pre \<Longrightarrow>
     \<exists>c'. map_of (zip (pre @ rest) (ffill_from c (map f (pre @ rest)))) d =
          map_of (zip rest (ffill_from c' (map f rest))) d"
proof (induction pre arbitrary: c)
  case Nil
  then show ?case by auto
next
  case (Cons a pre)
  then have d: "d \<noteq> a" "d \<notin> set pre" by auto
  show ?case
  proof (cases "f a")
    case None
    from Cons.IH[OF d(2), of c] show ?thesis using d(1) None by auto
  next
    case (Some v)
    from Cons.IH[OF d(2), of "Some v"] show ?thesis using d(1) Some by auto
  qed
qed

lemma cell_at_first_column:
  assumes "sorted cols" and "distinct cols" and "s \<in> set cols" and "\<forall>x \<in> set cols. s \<le> x"
  shows "cell_at cols (ffill_from None (map f cols)) s = f s"
proof -
  obtain a post where cols: "cols = a # post" using assms(3) by (cases cols) auto
  have "a = s"
  proof (rule ccontr)
    assume "a \<noteq> s"
    then have "s \<in> set post" using assms(3) cols by auto
    then have "a \<le> s" using assms(1) cols by auto
    moreover have "s \<le> a" using assms(4) cols by auto
    ultimately show False using \<open>a \<noteq> s\<close> by simp
  qed
  then show ?thesis unfolding cols cell_at_def by (cases "f s") auto
qed

lemma cell_at_after_observation:
  fixes T :: int
  assumes "sorted cols" and "distinct cols" and "T - 1 \<in> set cols" and "T \<in> set cols"
    and "f T = None" and "f (T - 1) = Some v"
  shows "cell_at cols (ffill_from c (map f cols)) T = Some v"
proof -
  from split_list_first[OF assms(4)] obtain pre post where
    cols: "cols = pre @ T # post" and npre: "T \<notin> set pre" by blast
  have lt: "\<forall>x \<in> set pre. x < T"
    using assms(1,2) unfolding cols by (auto simp: sorted_append less_le)
  have "T - 1 \<notin> set post"
    using assms(1) unfolding cols by (auto simp: sorted_append)
  then have in_pre: "T - 1 \<in> set pre" using assms(3) unfolding cols by auto
  then obtain pre' l where pre: "pre = pre' @ [l]" by (cases pre rule: rev_cases) auto
  have "l < T" using lt pre by simp
  moreover have "T - 1 \<le> l"
    using in_pre assms(1) unfolding cols pre by (auto simp: sorted_append)
  ultimately have l: "l = T - 1" by simp
  have cols': "cols = pre' @ (T - 1) # T # post" unfolding cols pre l by simp
  have "T \<notin> set pre'" using npre pre by simp
  from ffill_skip_prefix[OF this, of "(T - 1) # T # post" c f] obtain c' where
    "map_of (zip cols (ffill_from c (map f cols))) T =
     map_of (zip ((T - 1) # T # post) (ffill_from c' (map f ((T - 1) # T # post)))) T"
    unfolding cols' by blast
  then show ?thesis
    using assms(5,6) by (simp add: cell_at_def)
qed

lemma agg_first_Some_row:
  "agg_first rows p d = Some v \<Longrightarrow>
     \<exists>r \<in> set rows. price_product_id r = p \<and> price_date r = d \<and> price r = Some v"
proof -
  assume a: "agg_first rows p d = Some v"
  then obtain vs where
    "dropna (map price (filter (\<lambda>r. price_product_id r = p \<and> price_date r = d) rows)) = v # vs"
    by (auto simp: agg_first_def split: list.splits)
  then have "v \<in> set (dropna (map price (filter (\<lambda>r. price_product_id r = p \<and> price_date r = d) rows)))"
    by simp
  then show ?thesis by (auto simp: set_dropna)
qed

lemma agg_first_None_iff:
  "agg_first rows p d = None \<longleftrightarrow>
     (\<forall>r \<in> set rows. price_product_id r = p \<and> price_date r = d \<longrightarrow> price r = None)"
proof -
  have "agg_first rows p d = None \<longleftrightarrow>
      set (dropna (map price (filter (\<lambda>r. price_product_id r = p \<and> price_date r = d) rows))) = {}"
    by (auto simp: agg_first_def split: list.splits)
  also have "\<dots> \<longleftrightarrow> (\<forall>r \<in> set rows. price_product_id r = p \<and> price_date r = d \<longrightarrow> price r = None)"
    by (auto simp: set_dropna image_iff) (metis not_Some_eq)
  finally show ?thesis .
qed

lemma agg_first_prices_query:
  "d \<in> set ds \<Longrightarrow> agg_first (prices_query ds t) p d = agg_first (prices_tbl t) p d"
proof -
  assume d: "d \<in> set ds"
  have "filter (\<lambda>r. price_product_id r = p \<and> price_date r = d) (prices_query ds t) =
        filter (\<lambda>r. price_product_id r = p \<and> price_date r = d) (prices_tbl t)"
    unfolding prices_query_def filter_filter using d by (intro filter_cong) auto
  then show ?thesis by (simp add: agg_first_def)
qed

lemma pivot_table_columns:
  "pv_columns (pivot_table rows) = sort (remdups (map price_date (filter (\<lambda>r. price r \<noteq> None) rows)))"
  by (simp add: pivot_table_def Let_def)

lemma pivot_columns_in_range:
  "x \<in> set (pv_columns (pivot_table (prices_query (date_range s e) t))) \<Longrightarrow> s \<le> x \<and> x \<le> e"
  by (auto simp: set_pivot_columns prices_query_def date_range_def)

text \<open>The column selected from the forward-filled pivot of the fetched rows.\<close>

lemma getitem_price_pivot:
  assumes "clickhouse_client self = Serves t" and "price_pivot_for self s e = Inr pv"
    and "getitem pv d = Inr col"
  shows "col = map (\<lambda>p. (p, cell_at (pv_columns pv)
            (ffill_from None (map (agg_first (prices_query (date_range s e) t) p) (pv_columns pv))) d))
          (map fst (pv_rows pv))"
proof -
  from assms(1,2) have pv: "pv = ffill (pivot_table (prices_query (date_range s e) t))"
    by (auto simp: price_pivot_for_Inr)
  from assms(3) have "col = map (\<lambda>(p, cells). (p, cell_at (pv_columns pv) cells d)) (pv_rows pv)"
    by (simp add: getitem_Inr)
  then show ?thesis
    unfolding pv by (simp add: ffill_def pivot_table_def Let_def comp_def)
qed

subsection \<open>Products with a base price of zero or less\<close>

text \<open>
  C7. A product whose base price (its cell in the column of the start date) is 0 or less
  has no row in \<^verbatim>\<open>valid_data\<close> on any date, and on every row that reaches the ratio and
  the logarithm the divisor is positive; so the ratio never divides by zero.
\<close>

theorem nonpositive_base_filtered:
  assumes "price_pivot_for self s e = Inr pv"
    and "getitem pv s = Inr base_prices"
    and "(p, Some b) \<in> set base_prices" and "b \<le> 0"
    and "merged_data_for self pv s = Inr md"
    and "valid_data_on pv md d = Inr vd"
  shows "\<forall>r \<in> set vd. v_product_id r \<noteq> p \<and> 0 < v_base_price r \<and>
           price_ratio r = v_current_price r / v_base_price r"
proof
  fix r assume r: "r \<in> set vd"
  from assms(6) obtain cur where cur: "getitem pv d = Inr cur"
    by (auto simp: valid_data_on_Inr)
  from valid_row_origin[OF assms(2) assms(5) cur assms(6) r]
  have q: "(v_product_id r, Some (v_base_price r)) \<in> set base_prices"
       "0 < v_base_price r" "price_ratio r = v_current_price r / v_base_price r"
    by auto
  have "v_product_id r \<noteq> p"
  proof
    assume "v_product_id r = p"
    with q have "(p, Some (v_base_price r)) \<in> set base_prices" by simp
    from series_unique[OF distinct_getitem[OF assms(1,2)] this assms(3)] q(2) assms(4)
    show False by simp
  qed
  then show "v_product_id r \<noteq> p \<and> 0 < v_base_price r \<and>
           price_ratio r = v_current_price r / v_base_price r"
    using q by simp
qed

theorem nonpositive_base_filtered_witness:
  "price_pivot_for zero_base_calculator 0 1 = Inr zero_base_pivot \<and>
   getitem zero_base_pivot 0 = Inr [(1, Some 0), (2, Some 20)] \<and>
   merged_data_for zero_base_calculator zero_base_pivot 0 = Inr zero_base_merged \<and>
   valid_data_on zero_base_pivot zero_base_merged 1 = Inr [zero_base_valid] \<and>
   v_product_id zero_base_valid \<noteq> 1 \<and> 0 < v_base_price zero_base_valid"
proof -
  have pp: "price_pivot_for zero_base_calculator 0 1 = Inr zero_base_pivot"
    by (simp add: daily_defs scenario_defs zero_base_calculator_def zero_base_pivot_def upto_0_1)
  have gi: "getitem zero_base_pivot 0 = Inr [(1, Some 0), (2, Some 20)]"
    by (simp add: daily_defs zero_base_pivot_def)
  have md: "merged_data_for zero_base_calculator zero_base_pivot 0 = Inr zero_base_merged"
    by (simp add: daily_defs scenario_defs zero_base_calculator_def zero_base_pivot_def
        zero_base_merged_def)
  have vd: "valid_data_on zero_base_pivot zero_base_merged 1 = Inr [zero_base_valid]"
    by (simp add: daily_defs zero_base_pivot_def zero_base_merged_def zero_base_valid_def)
  have m: "(1, Some 0) \<in> set [(1::int, Some (0::real)), (2, Some 20)]"
    by simp
  from nonpositive_base_filtered[OF pp gi m _ md vd]
  show ?thesis using pp gi md vd by simp
qed

subsection \<open>The base price\<close>

lemma sorted_distinct_pivot_columns:
  "price_pivot_for self s e = Inr pv \<Longrightarrow> sorted (pv_columns pv) \<and> distinct (pv_columns pv)"
  by (auto simp: price_pivot_for_Inr pivot_table_columns)

lemma base_price_cell:
  assumes "clickhouse_client self = Serves t" and "price_pivot_for self s e = Inr pv"
    and "getitem pv s = Inr base_prices" and "(p, b) \<in> set base_prices"
  shows "b = agg_first (prices_tbl t) p s"
proof -
  let ?rows = "prices_query (date_range s e) t"
  from assms(1,2) have pv: "pv = ffill (pivot_table ?rows)"
    by (auto simp: price_pivot_for_Inr)
  from assms(3) have s_col: "s \<in> set (pv_columns pv)" by (simp add: getitem_Inr)
  have rng: "\<forall>x \<in> set (pv_columns pv). s \<le> x"
    using pivot_columns_in_range[of _ s e t] unfolding pv by auto
  have "s \<le> e" using pivot_columns_in_range[of s s e t] s_col unfolding pv by auto
  then have s_in: "s \<in> set (date_range s e)" by (simp add: date_range_def)
  from sorted_distinct_pivot_columns[OF assms(2)]
  have sd: "sorted (pv_columns pv)" "distinct (pv_columns pv)" by auto
  from assms(4) getitem_price_pivot[OF assms(1,2,3)]
  have "b = cell_at (pv_columns pv) (ffill_from None (map (agg_first ?rows p) (pv_columns pv))) s"
    by auto
  also have "\<dots> = agg_first ?rows p s"
    by (rule cell_at_first_column[OF sd s_col rng])
  also have "\<dots> = agg_first (prices_tbl t) p s"
    by (rule agg_first_prices_query[OF s_in])
  finally show ?thesis .
qed

text \<open>
  C1, as the code has it. Only the rows dated within the range are fetched, so nothing
  before the start date reaches the pivot: every product's base price is its first
  non-null price among the rows dated exactly the start date, null when it has none; and
  every row that survives the mask, on any date, belongs to a product with such an
  observation, which is its base price. A product without a priced row on the start
  date is therefore excluded from every date's aggregation.
\<close>

theorem base_price_is_start_observation:
  assumes "clickhouse_client self = Serves t" and "price_pivot_for self s e = Inr pv"
    and "getitem pv s = Inr base_prices"
  shows "(\<forall>(p, b) \<in> set base_prices. b = agg_first (prices_tbl t) p s) \<and>
         (\<forall>md d vd. merged_data_for self pv s = Inr md \<longrightarrow> valid_data_on pv md d = Inr vd \<longrightarrow>
            (\<forall>r \<in> set vd. agg_first (prices_tbl t) (v_product_id r) s = Some (v_base_price r)))"
proof (intro conjI allI impI ballI)
  fix x assume "x \<in> set base_prices"
  then show "case x of (p, b) \<Rightarrow> b = agg_first (prices_tbl t) p s"
    using base_price_cell[OF assms] by (cases x) auto
next
  fix md d vd r
  assume md: "merged_data_for self pv s = Inr md" and vd: "valid_data_on pv md d = Inr vd"
    and r: "r \<in> set vd"
  from vd obtain cur where cur: "getitem pv d = Inr cur" by (auto simp: valid_data_on_Inr)
  from valid_row_origin[OF assms(3) md cur vd r]
  have "(v_product_id r, Some (v_base_price r)) \<in> set base_prices" by auto
  from base_price_cell[OF assms this]
  show "agg_first (prices_tbl t) (v_product_id r) s = Some (v_base_price r)" by simp
qed

theorem base_price_is_start_observation_witness:
  "clickhouse_client earlier_calculator = Serves earlier_tables \<and>
   price_pivot_for earlier_calculator 0 1 = Inr earlier_pivot \<and>
   getitem earlier_pivot 0 = Inr [(1, None), (2, Some 20)] \<and>
   agg_first (prices_tbl earlier_tables) 1 0 = None \<and>
   agg_first (prices_tbl earlier_tables) 2 0 = Some 20"
proof -
  have c: "clickhouse_client earlier_calculator = Serves earlier_tables"
    by (simp add: earlier_calculator_def)
  have pp: "price_pivot_for earlier_calculator 0 1 = Inr earlier_pivot"
    by (simp add: daily_defs scenario_defs earlier_calculator_def earlier_tables_def
        earlier_pivot_def upto_0_1)
  have gi: "getitem earlier_pivot 0 = Inr [(1, None), (2, Some 20)]"
    by (simp add: daily_defs earlier_pivot_def)
  from base_price_is_start_observation[OF c pp gi]
  show ?thesis using c pp gi by simp
qed

text \<open>
  C1 as stated fails: product 1 has an observation (price 10) the day before the start
  and none on the start date. Its base price is null, not 10, and the product is left
  out: the series is 0.4 on both days, the weight of category B alone.
\<close>

theorem base_price_before_start_counterexample:
  "\<lparr>price_product_id = 1, price = Some 10, price_date = - 1\<rparr> \<in> set (prices_tbl earlier_tables) \<and>
   price_pivot_for earlier_calculator 0 1 = Inr earlier_pivot \<and>
   getitem earlier_pivot 0 = Inr [(1, None), (2, Some 20)] \<and>
   compute_daily_cpi earlier_calculator 0 1 = Inr [(0, 4 / 10), (1, 4 / 10)]"
  by (simp add: daily_defs scenario_defs earlier_calculator_def earlier_tables_def
      earlier_pivot_def upto_0_1)

subsection \<open>Forward fill inside the range\<close>

lemma current_price_cell:
  assumes "clickhouse_client self = Serves t" and "price_pivot_for self s e = Inr pv"
    and "s < T" and "T \<le> e"
    and "agg_first (prices_tbl t) p T = None" and "agg_first (prices_tbl t) p (T - 1) = Some v"
    and "getitem pv T = Inr current_prices"
  shows "(p, Some v) \<in> set current_prices"
proof -
  let ?rows = "prices_query (date_range s e) t"
  from assms(1,2) have pv: "pv = ffill (pivot_table ?rows)"
    by (auto simp: price_pivot_for_Inr)
  have T_in: "T \<in> set (date_range s e)" "T - 1 \<in> set (date_range s e)"
    using assms(3,4) by (auto simp: date_range_def)
  have fT: "agg_first ?rows p T = None" and fT1: "agg_first ?rows p (T - 1) = Some v"
    using assms(5,6) T_in by (simp_all add: agg_first_prices_query)
  from agg_first_Some_row[OF fT1] obtain r where
    r: "r \<in> set ?rows" "price_product_id r = p" "price_date r = T - 1" "price r = Some v"
    by blast
  then have T1_col: "T - 1 \<in> set (pv_columns pv)"
    unfolding pv by (auto simp: set_pivot_columns) metis
  from r have p_idx: "p \<in> set (map fst (pv_rows pv))"
    unfolding pv map_fst_pivot_rows by (auto simp: image_iff)
  from assms(7) have T_col: "T \<in> set (pv_columns pv)" by (simp add: getitem_Inr)
  from sorted_distinct_pivot_columns[OF assms(2)]
  have sd: "sorted (pv_columns pv)" "distinct (pv_columns pv)" by auto
  have "cell_at (pv_columns pv) (ffill_from None (map (agg_first ?rows p) (pv_columns pv))) T = Some v"
    by (rule cell_at_after_observation[OF sd T1_col T_col fT fT1])
  then show ?thesis
    using p_idx unfolding getitem_price_pivot[OF assms(1,2,7)] by (auto simp: image_iff)
qed

subsection \<open>The index of one date as a weighted sum\<close>

lemma nansum_eq: "nansum xs = sum_list (map nan_as_zero xs)"
  by (induction xs) (auto simp: nansum_def nan_as_zero_def List.map_filter_simps split: option.splits)

lemma nan_as_zero_mul: "nan_as_zero (nan_mul x w) = nan_as_zero x * w"
  by (cases x) (simp_all add: nan_as_zero_def nan_mul_def)

lemma sum_list_concat_map:
  fixes g :: "'a \<Rightarrow> real"
  shows "sum_list (map g (concat xss)) = sum_list (map (\<lambda>xs. sum_list (map g xs)) xss)"
  by (induction xss) auto

lemma sum_list_single_key:
  fixes x :: real
  shows "distinct ks \<Longrightarrow> sum_list (map (\<lambda>k. if a = k then h k else 0) ks) = (if a \<in> set ks then h a else 0)"
  by (induction ks) auto

lemma sum_list_by_key:
  fixes h :: "'k \<Rightarrow> 'c \<Rightarrow> real"
  assumes "distinct ks"
  shows "sum_list (map (\<lambda>k. sum_list (map (h k) (filter (\<lambda>c. key c = k) cs))) ks) =
         sum_list (map (\<lambda>c. h (key c) c) (filter (\<lambda>c. key c \<in> set ks) cs))"
proof (induction cs)
  case Nil
  then show ?case by simp
next
  case (Cons c cs)
  have "sum_list (map (\<lambda>k. sum_list (map (h k) (filter (\<lambda>c. key c = k) (c # cs)))) ks) =
        sum_list (map (\<lambda>k. (if key c = k then h k c else 0) +
           sum_list (map (h k) (filter (\<lambda>c. key c = k) cs))) ks)"
    by (intro arg_cong[where f = sum_list] map_cong) auto
  also have "\<dots> = sum_list (map (\<lambda>k. if key c = k then h k c else 0) ks) +
        sum_list (map (\<lambda>k. sum_list (map (h k) (filter (\<lambda>c. key c = k) cs))) ks)"
    by (simp add: sum_list_addf)
  also have "sum_list (map (\<lambda>k. if key c = k then h k c else 0) ks) =
        (if key c \<in> set ks then h (key c) c else 0)"
    using sum_list_single_key[OF assms, of "key c" "\<lambda>k. h k c"] by simp
  finally show ?case using Cons.IH by simp
qed

lemma cpi_of_valid_closed_form:
  "cpi_of_valid vd leaf =
     sum_list (map (\<lambda>c. nan_as_zero (np_exp (mean_skipna (map log_ratio
                     (survivors vd (leaf_category_id c))))) * leaf_weight c)
       (filter (\<lambda>c. survivors vd (leaf_category_id c) \<noteq> []) leaf))"
proof -
  let ?keys = "sort (remdups (map v_category_id vd))"
  let ?idx = "\<lambda>k. np_exp (mean_skipna (map log_ratio (survivors vd k)))"
  let ?h = "\<lambda>k c. nan_as_zero (?idx k) * leaf_weight c"
  have "cpi_of_valid vd leaf =
      sum_list (map (\<lambda>k. sum_list (map (?h k) (filter (\<lambda>c. leaf_category_id c = k) leaf))) ?keys)"
    unfolding cpi_of_valid_def final_data_def category_index_def nansum_eq survivors_def
    by (simp add: sum_list_concat_map comp_def nan_as_zero_mul case_prod_unfold)
  also have "\<dots> = sum_list (map (\<lambda>c. ?h (leaf_category_id c) c)
      (filter (\<lambda>c. leaf_category_id c \<in> set ?keys) leaf))"
    by (rule sum_list_by_key) simp
  also have "(\<lambda>c. leaf_category_id c \<in> set ?keys) = (\<lambda>c. survivors vd (leaf_category_id c) \<noteq> [])"
    by (auto simp: survivors_def filter_empty_conv fun_eq_iff) (metis imageI)
  finally show ?thesis .
qed

lemma daily_loop_Inr:
  "daily_loop pv leaf md ds = Inr cs \<Longrightarrow>
     map fst cs = ds \<and> (\<forall>x \<in> set cs. cpi_on_date pv leaf md (fst x) = Inr (snd x))"
  by (induction ds arbitrary: cs) (auto split: sum.splits)

lemma compute_daily_cpi_Inr:
  "compute_daily_cpi self s e = Inr series \<longleftrightarrow>
     (\<exists>pv md cs. price_pivot_for self s e = Inr pv \<and> merged_data_for self pv s = Inr md \<and>
        daily_loop pv (leaf_categories (categories self)) md (date_range s e) = Inr cs \<and>
        series = map (\<lambda>(d, v). (d, round4 v)) cs)"
  by (auto simp: compute_daily_cpi_def split: sum.splits)

lemma cpi_on_date_Inr_iff:
  "cpi_on_date pv leaf md d = Inr v \<longleftrightarrow>
     (\<exists>vd. valid_data_on pv md d = Inr vd \<and> v = cpi_of_valid vd leaf)"
  by (auto simp: cpi_on_date_def split: sum.splits)

lemma series_value:
  assumes "compute_daily_cpi self s e = Inr series" and "(T, x) \<in> set series"
  shows "\<exists>pv md vd. price_pivot_for self s e = Inr pv \<and> merged_data_for self pv s = Inr md \<and>
           valid_data_on pv md T = Inr vd \<and>
           x = round4 (cpi_of_valid vd (leaf_categories (categories self)))"
proof -
  from assms(1) obtain pv md cs where
    a: "price_pivot_for self s e = Inr pv" "merged_data_for self pv s = Inr md"
       "daily_loop pv (leaf_categories (categories self)) md (date_range s e) = Inr cs"
       "series = map (\<lambda>(d, v). (d, round4 v)) cs"
    unfolding compute_daily_cpi_Inr by blast
  from assms(2) a(4) obtain v where v: "(T, v) \<in> set cs" "x = round4 v" by auto
  from daily_loop_Inr[OF a(3)] v(1)
  have "cpi_on_date pv (leaf_categories (categories self)) md T = Inr v" by force
  then obtain vd where "valid_data_on pv md T = Inr vd"
    "v = cpi_of_valid vd (leaf_categories (categories self))"
    unfolding cpi_on_date_Inr_iff by blast
  then show ?thesis using a(1,2) v(2) by blast
qed

lemma fin_values_map_Fin [simp]: "fin_values (map Fin xs) = xs"
  by (induction xs) auto

lemma mean_skipna_Fin:
  "xs \<noteq> [] \<Longrightarrow> mean_skipna (map Fin xs) = Fin (sum_list xs / real (length xs))"
proof -
  assume "xs \<noteq> []"
  have "filter (\<lambda>v. v \<noteq> NaN) (map Fin xs) = map Fin xs"
    by (induction xs) auto
  moreover have "NegInf \<notin> set (map Fin xs)" by auto
  ultimately show ?thesis using \<open>xs \<noteq> []\<close>
    by (simp add: mean_skipna_def mean_of_def del: set_map)
qed

lemma survivors_subset: "set (survivors vd k) \<subseteq> set vd"
  by (auto simp: survivors_def)

text \<open>The geometric mean of the price relatives when all of a group's prices are positive.\<close>

lemma positive_group_index:
  assumes "rows \<noteq> []"
    and "\<forall>r \<in> set rows. 0 < price_ratio r \<and> log_ratio r = np_log (price_ratio r)"
  shows "np_exp (mean_skipna (map log_ratio rows)) =
         Some (exp (sum_list (map (\<lambda>r. ln (price_ratio r)) rows) / real (length rows)))"
proof -
  have "map log_ratio rows = map Fin (map (\<lambda>r. ln (price_ratio r)) rows)"
    using assms(2) by (auto simp: np_log_def)
  then show ?thesis
    using assms(1) by (simp add: mean_skipna_Fin np_exp_def del: map_map)
qed

text \<open>
  C6. Every value of the returned series is, before rounding to four decimals, the sum
  over exactly the leaf categories with at least one surviving row on that date of the
  exponential of the mean logarithm of the group's price ratios times the category's
  weight; the other leaf categories add nothing and no weight is renormalised. The first
  equation is general (a NaN index, from negative prices only, is skipped by the sum);
  the second is the case of positive current prices, where the index is the geometric
  mean of the price ratios.
\<close>

theorem daily_cpi_weighted_sum:
  assumes "compute_daily_cpi self s e = Inr series" and "(T, x) \<in> set series"
  shows "\<exists>pv md vd. price_pivot_for self s e = Inr pv \<and> merged_data_for self pv s = Inr md \<and>
           valid_data_on pv md T = Inr vd \<and>
           x = round4 (\<Sum>c\<leftarrow>filter (\<lambda>c. survivors vd (leaf_category_id c) \<noteq> [])
                     (leaf_categories (categories self)).
                 nan_as_zero (np_exp (mean_skipna (map log_ratio
                     (survivors vd (leaf_category_id c))))) * leaf_weight c) \<and>
           ((\<forall>r \<in> set vd. 0 < v_current_price r) \<longrightarrow>
            x = round4 (\<Sum>c\<leftarrow>filter (\<lambda>c. survivors vd (leaf_category_id c) \<noteq> [])
                     (leaf_categories (categories self)).
                 exp (sum_list (map (\<lambda>r. ln (price_ratio r)) (survivors vd (leaf_category_id c)))
                      / real (length (survivors vd (leaf_category_id c)))) * leaf_weight c))"
proof -
  let ?leaf = "leaf_categories (categories self)"
  from series_value[OF assms] obtain pv md vd where
    a: "price_pivot_for self s e = Inr pv" "merged_data_for self pv s = Inr md"
       "valid_data_on pv md T = Inr vd" "x = round4 (cpi_of_valid vd ?leaf)"
    by blast
  let ?live = "filter (\<lambda>c. survivors vd (leaf_category_id c) \<noteq> []) ?leaf"
  have general: "x = round4 (\<Sum>c\<leftarrow>?live.
      nan_as_zero (np_exp (mean_skipna (map log_ratio (survivors vd (leaf_category_id c))))) *
      leaf_weight c)"
    unfolding a(4) cpi_of_valid_closed_form ..
  have positive: "x = round4 (\<Sum>c\<leftarrow>?live.
      exp (sum_list (map (\<lambda>r. ln (price_ratio r)) (survivors vd (leaf_category_id c)))
           / real (length (survivors vd (leaf_category_id c)))) * leaf_weight c)"
    if pos: "\<forall>r \<in> set vd. 0 < v_current_price r"
  proof -
    from a(2) obtain bp where bp: "getitem pv s = Inr bp" by (auto simp: merged_data_for_Inr)
    from a(3) obtain cur where cur: "getitem pv T = Inr cur" by (auto simp: valid_data_on_Inr)
    have rows: "0 < price_ratio r \<and> log_ratio r = np_log (price_ratio r)" if "r \<in> set vd" for r
      using valid_row_origin[OF bp a(2) cur a(3) that] pos that by auto
    have "(\<Sum>c\<leftarrow>?live. nan_as_zero (np_exp (mean_skipna (map log_ratio
              (survivors vd (leaf_category_id c))))) * leaf_weight c) =
          (\<Sum>c\<leftarrow>?live. exp (sum_list (map (\<lambda>r. ln (price_ratio r)) (survivors vd (leaf_category_id c)))
              / real (length (survivors vd (leaf_category_id c)))) * leaf_weight c)"
    proof (intro arg_cong[where f = sum_list] map_cong refl)
      fix c assume "c \<in> set ?live"
      then have ne: "survivors vd (leaf_category_id c) \<noteq> []" by simp
      have "\<forall>r \<in> set (survivors vd (leaf_category_id c)).
          0 < price_ratio r \<and> log_ratio r = np_log (price_ratio r)"
        using rows survivors_subset by blast
      from positive_group_index[OF ne this]
      show "nan_as_zero (np_exp (mean_skipna (map log_ratio (survivors vd (leaf_category_id c))))) *
          leaf_weight c =
          exp (sum_list (map (\<lambda>r. ln (price_ratio r)) (survivors vd (leaf_category_id c)))
              / real (length (survivors vd (leaf_category_id c)))) * leaf_weight c"
        by (simp add: nan_as_zero_def)
    qed
    then show ?thesis using general by simp
  qed
  show ?thesis
    using a(1,2,3) general positive by blast
qed

theorem daily_cpi_weighted_sum_witness:
  "compute_daily_cpi scenario_calculator 0 1 = Inr [(0, 1), (1, 106 / 100)] \<and>
   price_pivot_for scenario_calculator 0 1 = Inr scenario_pivot \<and>
   merged_data_for scenario_calculator scenario_pivot 0 = Inr scenario_merged \<and>
   valid_data_on scenario_pivot scenario_merged 1 = Inr scenario_valid \<and>
   map v_current_price scenario_valid = [11, 20] \<and>
   (106 / 100 :: real) =
     round4 (\<Sum>c\<leftarrow>filter (\<lambda>c. survivors scenario_valid (leaf_category_id c) \<noteq> [])
                (leaf_categories (categories scenario_calculator)).
         exp (sum_list (map (\<lambda>r. ln (price_ratio r)) (survivors scenario_valid (leaf_category_id c)))
              / real (length (survivors scenario_valid (leaf_category_id c)))) * leaf_weight c)"
proof -
  have r: "compute_daily_cpi scenario_calculator 0 1 = Inr [(0, 1), (1, 106 / 100)]"
    by (simp add: daily_defs scenario_defs upto_0_1)
  have pp: "price_pivot_for scenario_calculator 0 1 = Inr scenario_pivot"
    by (simp add: daily_defs scenario_defs scenario_pivot_def upto_0_1)
  have md: "merged_data_for scenario_calculator scenario_pivot 0 = Inr scenario_merged"
    by (simp add: daily_defs scenario_defs scenario_pivot_def scenario_merged_def)
  have vd: "valid_data_on scenario_pivot scenario_merged 1 = Inr scenario_valid"
    by (simp add: daily_defs scenario_pivot_def scenario_merged_def scenario_valid_def)
  have pos: "\<forall>r \<in> set scenario_valid. 0 < v_current_price r"
    by (simp add: scenario_valid_def)
  have m: "(1, 106 / 100) \<in> set [(0::int, 1::real), (1, 106 / 100)]"
    by simp
  from daily_cpi_weighted_sum[OF r m] pp md vd pos
  have "(106 / 100 :: real) =
     round4 (\<Sum>c\<leftarrow>filter (\<lambda>c. survivors scenario_valid (leaf_category_id c) \<noteq> [])
                (leaf_categories (categories scenario_calculator)).
         exp (sum_list (map (\<lambda>r. ln (price_ratio r)) (survivors scenario_valid (leaf_category_id c)))
              / real (length (survivors scenario_valid (leaf_category_id c)))) * leaf_weight c)"
    by auto
  moreover have "map v_current_price scenario_valid = [11, 20]"
    by (simp add: scenario_valid_def)
  ultimately show ?thesis using r pp md vd by simp
qed

subsection \<open>The current price of a date without an observation\<close>

text \<open>
  C5, as the code has it. Whenever the call returns a series, for a date \<open>T\<close> after the
  start and within the range, a product with no priced row on \<open>T\<close> and with first priced
  row \<open>v\<close> on \<open>T - 1\<close> has \<open>v\<close> as its current price on \<open>T\<close>: \<open>v\<close> is its value in the
  column selected for \<open>T\<close>; every row of the product that survives the mask on \<open>T\<close> has
  current price \<open>v\<close>; every merged row of the product with a positive base price \<open>b\<close> does
  survive, with current price \<open>v\<close> and price ratio \<open>v / b\<close>; and the value of the series
  on \<open>T\<close> is the rounded index of these surviving rows.
\<close>

theorem forward_fill_from_previous_day:
  assumes "clickhouse_client self = Serves t" and "compute_daily_cpi self s e = Inr series"
    and "s < T" and "T \<le> e"
    and "agg_first (prices_tbl t) p T = None" and "agg_first (prices_tbl t) p (T - 1) = Some v"
  shows "\<exists>pv current_prices md vd.
           price_pivot_for self s e = Inr pv \<and> getitem pv T = Inr current_prices \<and>
           (p, Some v) \<in> set current_prices \<and>
           merged_data_for self pv s = Inr md \<and> valid_data_on pv md T = Inr vd \<and>
           (\<forall>r \<in> set vd. v_product_id r = p \<longrightarrow> v_current_price r = v) \<and>
           (\<forall>m \<in> set md. \<forall>b. m_product_id m = p \<and> base_price m = Some b \<and> 0 < b \<longrightarrow>
              \<lparr>v_product_id = p, v_category_id = m_category_id m, v_base_price = b,
               v_current_price = v, v_weight = m_weight m, price_ratio = v / b,
               log_ratio = np_log (v / b)\<rparr> \<in> set vd) \<and>
           (T, round4 (cpi_of_valid vd (leaf_categories (categories self)))) \<in> set series"
proof -
  let ?leaf = "leaf_categories (categories self)"
  from assms(2) obtain pv md cs where
    a: "price_pivot_for self s e = Inr pv" "merged_data_for self pv s = Inr md"
       "daily_loop pv ?leaf md (date_range s e) = Inr cs"
       "series = map (\<lambda>(d, x). (d, round4 x)) cs"
    unfolding compute_daily_cpi_Inr by blast
  from daily_loop_Inr[OF a(3)]
  have dates: "map fst cs = date_range s e"
    and body: "\<forall>x \<in> set cs. cpi_on_date pv ?leaf md (fst x) = Inr (snd x)"
    by auto
  have "T \<in> set (date_range s e)" using assms(3,4) by (simp add: date_range_def)
  then have "T \<in> fst ` set cs" using dates by (metis set_map)
  then obtain x where x: "(T, x) \<in> set cs" by auto
  with body have "cpi_on_date pv ?leaf md T = Inr x" by force
  then obtain vd where vd: "valid_data_on pv md T = Inr vd" and xv: "x = cpi_of_valid vd ?leaf"
    unfolding cpi_on_date_Inr_iff by blast
  from vd obtain current_prices where cur: "getitem pv T = Inr current_prices"
    and vd_eq: "vd = valid_data (merge_current md current_prices)"
    by (auto simp: valid_data_on_Inr)
  have in_series: "(T, round4 (cpi_of_valid vd ?leaf)) \<in> set series"
    using x xv unfolding a(4) by force
  have c: "(p, Some v) \<in> set current_prices"
    by (rule current_price_cell[OF assms(1) a(1) assms(3,4,5,6) cur])
  from a(2) obtain base_prices where bp: "getitem pv s = Inr base_prices"
    by (auto simp: merged_data_for_Inr)
  have same: "v_current_price r = v" if r: "r \<in> set vd" and p: "v_product_id r = p" for r
  proof -
    from valid_row_origin[OF bp a(2) cur vd r] p
    have "(p, Some (v_current_price r)) \<in> set current_prices" by auto
    from series_unique[OF distinct_getitem[OF a(1) cur] this c]
    show ?thesis by simp
  qed
  have there: "\<lparr>v_product_id = p, v_category_id = m_category_id m, v_base_price = b,
                   v_current_price = v, v_weight = m_weight m, price_ratio = v / b,
                   log_ratio = np_log (v / b)\<rparr> \<in> set vd"
    if m: "m \<in> set md" and mp: "m_product_id m = p" "base_price m = Some b" "0 < b" for m b
  proof -
    have "(m, Some v) \<in> set (merge_current md current_prices)"
      using m mp(1) c by (simp add: set_merge_current)
    moreover have "valid_of (m, Some v) =
        Some \<lparr>v_product_id = p, v_category_id = m_category_id m, v_base_price = b,
                   v_current_price = v, v_weight = m_weight m, price_ratio = v / b,
                   log_ratio = np_log (v / b)\<rparr>"
      using mp by (simp add: valid_of_def)
    ultimately show ?thesis unfolding vd_eq set_valid_data by blast
  qed
  show ?thesis using a(1,2) cur c vd same there in_series by blast
qed

theorem forward_fill_from_previous_day_witness:
  "clickhouse_client carry_calculator = Serves carry_tables \<and>
   compute_daily_cpi carry_calculator 0 1 = Inr [(0, 1), (1, 102 / 100)] \<and>
   (0::int) < 1 \<and> (1::int) \<le> 1 \<and>
   agg_first (prices_tbl carry_tables) 1 1 = None \<and>
   agg_first (prices_tbl carry_tables) 1 (1 - 1) = Some 10 \<and>
   price_pivot_for carry_calculator 0 1 = Inr carry_pivot \<and>
   getitem carry_pivot 1 = Inr [(1, Some 10), (2, Some 21)] \<and>
   merged_data_for carry_calculator carry_pivot 0 = Inr carry_merged \<and>
   valid_data_on carry_pivot carry_merged 1 = Inr carry_valid \<and>
   map v_product_id carry_valid = [1, 2] \<and> map v_current_price carry_valid = [10, 21]"
proof -
  have c: "clickhouse_client carry_calculator = Serves carry_tables"
    by (simp add: carry_calculator_def)
  have r: "compute_daily_cpi carry_calculator 0 1 = Inr [(0, 1), (1, 102 / 100)]"
    by (simp add: daily_defs scenario_defs carry_calculator_def carry_tables_def upto_0_1)
  have a1: "agg_first (prices_tbl carry_tables) 1 1 = None"
    by (simp add: daily_defs carry_tables_def)
  have a0: "agg_first (prices_tbl carry_tables) 1 (1 - 1) = Some 10"
    by (simp add: daily_defs carry_tables_def)
  have pp: "price_pivot_for carry_calculator 0 1 = Inr carry_pivot"
    by (simp add: daily_defs scenario_defs carry_calculator_def carry_tables_def
        carry_pivot_def upto_0_1)
  have gi: "getitem carry_pivot 1 = Inr [(1, Some 10), (2, Some 21)]"
    by (simp add: daily_defs carry_pivot_def)
  have md: "merged_data_for carry_calculator carry_pivot 0 = Inr carry_merged"
    by (simp add: daily_defs scenario_defs carry_calculator_def carry_pivot_def carry_merged_def)
  have vd: "valid_data_on carry_pivot carry_merged 1 = Inr carry_valid"
    by (simp add: daily_defs carry_pivot_def carry_merged_def carry_valid_def)
  from forward_fill_from_previous_day[OF c r _ _ a1 a0] pp md vd
  have "\<forall>r \<in> set carry_valid. v_product_id r = 1 \<longrightarrow> v_current_price r = 10"
    by auto
  moreover have "map v_product_id carry_valid = [1, 2]"
    by (simp add: carry_valid_def)
  ultimately have "map v_current_price carry_valid = [10, 21]"
    by (simp add: carry_valid_def)
  then show ?thesis
    using c r a1 a0 pp gi md vd by (simp add: carry_valid_def)
qed

text \<open>
  C5 as stated fails when the call raises: with prices on day 0 and day 2 only, product
  1 has no observation on day 1 and one (price 10) on day 0, and day 1 is strictly
  inside the range from day 0 to day 2; no product has a priced row on day 1, the
  pivoted table has no column for it, and the call raises \<^verbatim>\<open>KeyError\<close> on day 1.
\<close>

theorem forward_fill_missing_column_counterexample:
  "(0::int) < 1 \<and> (1::int) < 2 \<and>
   agg_first (prices_tbl gap_tables) 1 1 = None \<and>
   agg_first (prices_tbl gap_tables) 1 (1 - 1) = Some 10 \<and>
   compute_daily_cpi gap_calculator 0 2 = Inl (KeyError 1)"
  by (simp add: daily_defs scenario_defs gap_calculator_def gap_tables_def upto_0_2)

subsection \<open>The index of the start date\<close>

lemma round4_one: "round4 1 = 1"
  by (simp add: round4_def rint_def)

lemma unit_group_index:
  assumes "rows \<noteq> []" and "\<forall>r \<in> set rows. log_ratio r = Fin 0"
  shows "np_exp (mean_skipna (map log_ratio rows)) = Some 1"
proof -
  have "map log_ratio rows = map Fin (map (\<lambda>r. 0) rows)"
    using assms(2) by auto
  then show ?thesis
    using assms(1) by (simp add: mean_skipna_Fin np_exp_def del: map_map)
qed

lemma priced_product_in_column:
  assumes "clickhouse_client self = Serves t" and "price_pivot_for self s e = Inr pv"
    and "getitem pv s = Inr base_prices" and "agg_first (prices_tbl t) p s = Some v"
  shows "(p, Some v) \<in> set base_prices"
proof -
  let ?rows = "prices_query (date_range s e) t"
  from assms(1,2) have pv: "pv = ffill (pivot_table ?rows)"
    by (auto simp: price_pivot_for_Inr)
  from assms(3) have s_col: "s \<in> set (pv_columns pv)" by (simp add: getitem_Inr)
  have "s \<le> e" using pivot_columns_in_range[of s s e t] s_col unfolding pv by auto
  then have "s \<in> set (date_range s e)" by (simp add: date_range_def)
  then have "agg_first ?rows p s = Some v"
    using assms(4) by (simp add: agg_first_prices_query)
  from agg_first_Some_row[OF this] have "p \<in> set (map fst (pv_rows pv))"
    unfolding pv map_fst_pivot_rows by (auto simp: image_iff)
  then have "p \<in> set (map fst base_prices)"
    using map_fst_getitem[OF assms(3)] by simp
  then obtain b where b: "(p, b) \<in> set base_prices" by auto
  from base_price_cell[OF assms(1,2,3) b] assms(4) b show ?thesis by simp
qed

text \<open>
  C4, as the code has it. When the call returns a series, the leaf weights sum to 1 and
  every leaf category has at least one product with a positive price observed on the
  start date, the first value of the series is 1.0 on the start date.
\<close>

theorem cpi_at_start_is_one:
  assumes "clickhouse_client self = Serves t"
    and "compute_daily_cpi self s e = Inr series"
    and "sum_list (map leaf_weight (leaf_categories (categories self))) = 1"
    and "\<forall>c \<in> set (leaf_categories (categories self)).
           \<exists>p \<in> set (products self). product_category_id p = leaf_category_id c \<and>
             (\<exists>v. agg_first (prices_tbl t) (product_id p) s = Some v \<and> 0 < v)"
  shows "\<exists>rest. series = (s, 1) # rest"
proof -
  let ?leaf = "leaf_categories (categories self)"
  from assms(2) obtain pv md cs where
    a: "price_pivot_for self s e = Inr pv" "merged_data_for self pv s = Inr md"
       "daily_loop pv ?leaf md (date_range s e) = Inr cs"
       "series = map (\<lambda>(d, v). (d, round4 v)) cs"
    unfolding compute_daily_cpi_Inr by blast
  from a(2) obtain bp where bp: "getitem pv s = Inr bp"
    and md: "md = merge_leaf (merge_base (products self) bp) ?leaf"
    by (auto simp: merged_data_for_Inr)
  from a(1) assms(1) have pv: "pv = ffill (pivot_table (prices_query (date_range s e) t))"
    by (auto simp: price_pivot_for_Inr)
  from bp have "s \<in> set (pv_columns pv)" by (simp add: getitem_Inr)
  then have "s \<le> e" using pivot_columns_in_range[of s s e t] unfolding pv by auto
  then have dr: "date_range s e = s # [s + 1..e]"
    by (simp add: date_range_def upto_rec1)
  from a(3) obtain v rest where cs: "cs = (s, v) # rest"
    and v: "cpi_on_date pv ?leaf md s = Inr v"
    unfolding dr by (auto split: sum.splits)
  from v bp have vd_on: "valid_data_on pv md s = Inr (valid_data (merge_current md bp))"
    and v_eq: "v = cpi_of_valid (valid_data (merge_current md bp)) ?leaf"
    by (auto simp: cpi_on_date_Inr_iff valid_data_on_Inr)
  let ?vd = "valid_data (merge_current md bp)"
  have unit: "log_ratio r = Fin 0" if "r \<in> set ?vd" for r
  proof -
    from valid_row_origin[OF bp a(2) bp vd_on that]
    have o: "(v_product_id r, Some (v_base_price r)) \<in> set bp"
      "(v_product_id r, Some (v_current_price r)) \<in> set bp" "0 < v_base_price r"
      "log_ratio r = np_log (v_current_price r / v_base_price r)"
      by auto
    from series_unique[OF distinct_getitem[OF a(1) bp] o(1,2)]
    have "v_current_price r = v_base_price r" by simp
    then show ?thesis using o(3,4) by (simp add: np_log_def)
  qed
  have live: "survivors ?vd (leaf_category_id c) \<noteq> []" if c: "c \<in> set ?leaf" for c
  proof -
    from assms(4) c obtain p x where
      p: "p \<in> set (products self)" "product_category_id p = leaf_category_id c"
         "agg_first (prices_tbl t) (product_id p) s = Some x" "0 < x"
      by blast
    from priced_product_in_column[OF assms(1) a(1) bp p(3)]
    have inbp: "(product_id p, Some x) \<in> set bp" .
    let ?m = "\<lparr>m_product_id = product_id p, m_category_id = product_category_id p,
               base_price = Some x, m_weight = leaf_weight c\<rparr>"
    have "?m \<in> set md"
      unfolding md set_merge_leaf set_merge_base using p(1,2) inbp c
      by (auto intro!: exI[of _ p] exI[of _ c])
    then have "(?m, Some x) \<in> set (merge_current md bp)"
      using inbp by (simp add: set_merge_current)
    moreover obtain r where r: "valid_of (?m, Some x) = Some r" "v_category_id r = leaf_category_id c"
      using p(2,4) by (simp add: valid_of_def)
    ultimately have "r \<in> set ?vd" unfolding set_valid_data by blast
    then have "r \<in> set (survivors ?vd (leaf_category_id c))"
      using r(2) by (simp add: survivors_def)
    then show ?thesis by auto
  qed
  have all_live: "filter (\<lambda>c. survivors ?vd (leaf_category_id c) \<noteq> []) ?leaf = ?leaf"
    using live by (simp add: filter_id_conv)
  have each: "nan_as_zero (np_exp (mean_skipna (map log_ratio (survivors ?vd (leaf_category_id c))))) *
      leaf_weight c = leaf_weight c" if "c \<in> set ?leaf" for c
  proof -
    have "\<forall>r \<in> set (survivors ?vd (leaf_category_id c)). log_ratio r = Fin 0"
      using unit survivors_subset by blast
    from unit_group_index[OF live[OF that] this] show ?thesis
      by (simp add: nan_as_zero_def)
  qed
  have "v = sum_list (map leaf_weight ?leaf)"
    unfolding v_eq cpi_of_valid_closed_form all_live
    by (intro arg_cong[where f = sum_list] map_cong refl each)
  then have "v = 1" using assms(3) by simp
  then show ?thesis unfolding a(4) cs by (simp add: round4_one)
qed

theorem cpi_at_start_is_one_witness:
  "clickhouse_client scenario_calculator = Serves scenario_tables \<and>
   compute_daily_cpi scenario_calculator 0 1 = Inr [(0, 1), (1, 106 / 100)] \<and>
   sum_list (map leaf_weight (leaf_categories (categories scenario_calculator))) = 1 \<and>
   map leaf_category_id (leaf_categories (categories scenario_calculator)) = [1, 2] \<and>
   map (\<lambda>p. (product_category_id p, agg_first (prices_tbl scenario_tables) (product_id p) 0))
     (products scenario_calculator) = [(1, Some 10), (2, Some 20)]"
proof -
  have c: "clickhouse_client scenario_calculator = Serves scenario_tables"
    by (simp add: scenario_calculator_def)
  have r: "compute_daily_cpi scenario_calculator 0 1 = Inr [(0, 1), (1, 106 / 100)]"
    by (simp add: daily_defs scenario_defs upto_0_1)
  have w: "sum_list (map leaf_weight (leaf_categories (categories scenario_calculator))) = 1"
    by (simp add: daily_defs scenario_defs)
  have l: "map leaf_category_id (leaf_categories (categories scenario_calculator)) = [1, 2]"
    by (simp add: daily_defs scenario_defs)
  have a: "map (\<lambda>p. (product_category_id p, agg_first (prices_tbl scenario_tables) (product_id p) 0))
     (products scenario_calculator) = [(1, Some 10), (2, Some 20)]"
    by (simp add: daily_defs scenario_defs)
  have h: "\<forall>c \<in> set (leaf_categories (categories scenario_calculator)).
           \<exists>p \<in> set (products scenario_calculator). product_category_id p = leaf_category_id c \<and>
             (\<exists>v. agg_first (prices_tbl scenario_tables) (product_id p) 0 = Some v \<and> 0 < v)"
    by (simp add: daily_defs scenario_defs)
  from cpi_at_start_is_one[OF c r w h]
  show ?thesis using c r w l a by simp
qed

text \<open>
  C4 as stated fails when a leaf category has no product: the weights sum to 1 and the
  only product has a positive price on the start date, yet the first value is 0.6.
\<close>

theorem cpi_at_start_counterexample:
  "sum_list (map leaf_weight (leaf_categories (categories lonely_calculator))) = 1 \<and>
   map (\<lambda>p. agg_first (prices_tbl lonely_tables) (product_id p) 0) (products lonely_calculator) =
     [Some 10] \<and>
   compute_daily_cpi lonely_calculator 0 0 = Inr [(0, 6 / 10)]"
  by (simp add: daily_defs scenario_defs lonely_calculator_def lonely_tables_def)

subsection \<open>The single-point query needs both endpoint observations\<close>

lemmas sql_defs =
  compute_cpi_def execute_clickhouse_query_def cpi_query_def sql_joined_def sql_price_data_def
  sql_leaf_categories_def sql_category_cpi_def sql_log_ratio_def max_if_def final_data_def
  ch_sum_def ch_avg_def mean_of_def np_log_def np_exp_def nan_mul_def dropna_def
  List.map_filter_simps

lemma max_if_None_iff: "max_if rows p d = None \<longleftrightarrow> \<not> observed rows p d"
proof -
  have "max_if rows p d = None \<longleftrightarrow>
      set (dropna (map price (filter (\<lambda>r. price_product_id r = p \<and> price_date r = d) rows))) = {}"
    by (auto simp: max_if_def split: list.splits)
  also have "\<dots> \<longleftrightarrow> \<not> observed rows p d"
    by (auto simp: set_dropna observed_def image_iff) (metis not_Some_eq)
  finally show ?thesis .
qed

lemma observed_endpoint_rows:
  "d = s \<or> d = e \<Longrightarrow>
     observed (filter (\<lambda>r. price_date r = s \<or> price_date r = e) rows) p d = observed rows p d"
  by (auto simp: observed_def)

lemma sql_log_ratio_Some:
  "sql_log_ratio pd = Some l \<Longrightarrow> pd_base_price pd \<noteq> None \<and> report_price pd \<noteq> None"
  by (auto simp: sql_log_ratio_def split: option.splits if_splits)

lemma price_data_row:
  "pd \<in> set (sql_price_data s e t) \<Longrightarrow>
     pd_base_price pd = max_if (filter (\<lambda>r. price_date r = s \<or> price_date r = e) (prices_tbl t))
        (pd_product_id pd) s \<and>
     report_price pd = max_if (filter (\<lambda>r. price_date r = s \<or> price_date r = e) (prices_tbl t))
        (pd_product_id pd) e"
  by (auto simp: sql_price_data_def Let_def)

lemma price_data_observed:
  assumes "pd \<in> set (sql_price_data s e t)" and "sql_log_ratio pd = Some l"
  shows "observed (prices_tbl t) (pd_product_id pd) s \<and> observed (prices_tbl t) (pd_product_id pd) e"
proof -
  let ?rows = "filter (\<lambda>r. price_date r = s \<or> price_date r = e) (prices_tbl t)"
  from price_data_row[OF assms(1)] sql_log_ratio_Some[OF assms(2)]
  have "max_if ?rows (pd_product_id pd) s \<noteq> None" "max_if ?rows (pd_product_id pd) e \<noteq> None"
    by auto
  then have "observed ?rows (pd_product_id pd) s" "observed ?rows (pd_product_id pd) e"
    by (simp_all add: max_if_None_iff)
  then show ?thesis by (simp add: observed_endpoint_rows)
qed

lemma max_if_endpoint_rows:
  "d = s \<or> d = e \<Longrightarrow>
     max_if (filter (\<lambda>r. price_date r = s \<or> price_date r = e) rows) p d = max_if rows p d"
proof -
  assume d: "d = s \<or> d = e"
  have "filter (\<lambda>r. price_product_id r = p \<and> price_date r = d)
          (filter (\<lambda>r. price_date r = s \<or> price_date r = e) rows) =
        filter (\<lambda>r. price_product_id r = p \<and> price_date r = d) rows"
    unfolding filter_filter using d by (intro filter_cong) auto
  then show ?thesis by (simp add: max_if_def)
qed

lemma price_data_log_ratio:
  assumes "pd \<in> set (sql_price_data s e t)" and "sql_log_ratio pd = Some l"
  shows "\<exists>b r. max_if (prices_tbl t) (pd_product_id pd) s = Some b \<and>
           max_if (prices_tbl t) (pd_product_id pd) e = Some r \<and> 0 < b \<and> l = np_log (r / b)"
  using price_data_row[OF assms(1)] assms(2)
  by (auto simp: sql_log_ratio_def max_if_endpoint_rows split: option.splits if_splits)

lemma joined_row_origin:
  assumes "j \<in> set (sql_joined s e t)"
  shows "\<exists>pd \<in> set (sql_price_data s e t). pd_product_id pd = j_product_id j \<and>
           sql_log_ratio pd = Some (j_log_ratio j)"
  using assms by (auto simp: sql_joined_def split: option.splits)

lemma concat_map_filter_irrelevant:
  "(\<And>x. x \<in> set xs \<Longrightarrow> \<not> Q x \<Longrightarrow> F x = []) \<Longrightarrow>
     concat (map F (filter Q xs)) = concat (map F xs)"
  by (induction xs) auto

lemma products_tbl_without_product [simp]:
  "products_tbl (without_product t p) = filter (\<lambda>r. product_id r \<noteq> p) (products_tbl t)"
  by (simp add: without_product_def)

lemma sql_leaf_without_product [simp]:
  "sql_leaf_categories (without_product t p) = sql_leaf_categories t"
  by (simp add: sql_leaf_categories_def without_product_def)

lemma sql_price_data_without_product [simp]:
  "sql_price_data s e (without_product t p) = sql_price_data s e t"
  by (simp add: sql_price_data_def without_product_def)

lemma sql_joined_without_product:
  assumes "\<not> observed (prices_tbl t) p s \<or> \<not> observed (prices_tbl t) p e"
  shows "sql_joined s e (without_product t p) = sql_joined s e t"
proof -
  let ?F = "\<lambda>q. concat (map (\<lambda>pd.
           (case sql_log_ratio pd of
              None \<Rightarrow> []
            | Some l \<Rightarrow>
                map (\<lambda>lc. \<lparr>j_product_id = product_id q, j_category_id = product_category_id q,
                           j_log_ratio = l\<rparr>)
                  (filter (\<lambda>lc. leaf_category_id lc = product_category_id q) (sql_leaf_categories t))))
          (filter (\<lambda>pd. pd_product_id pd = product_id q) (sql_price_data s e t)))"
  have empty: "?F q = []" if "\<not> product_id q \<noteq> p" for q
  proof -
    have "sql_log_ratio pd = None"
      if "pd \<in> set (sql_price_data s e t)" "pd_product_id pd = product_id q" for pd
    proof (cases "sql_log_ratio pd")
      case (Some l)
      from price_data_observed[OF that(1) Some] that(2) \<open>\<not> product_id q \<noteq> p\<close> assms
      show ?thesis by simp
    qed simp
    then show ?thesis by (auto split: option.splits)
  qed
  have "sql_joined s e (without_product t p) =
      concat (map ?F (filter (\<lambda>r. product_id r \<noteq> p) (products_tbl t)))"
    unfolding sql_joined_def products_tbl_without_product sql_leaf_without_product
      sql_price_data_without_product ..
  also have "\<dots> = concat (map ?F (products_tbl t))"
    by (rule concat_map_filter_irrelevant) (rule empty)
  also have "\<dots> = sql_joined s e t"
    by (simp add: sql_joined_def)
  finally show ?thesis .
qed

text \<open>
  C2. Every row that enters a category's geometric mean in \<^verbatim>\<open>compute_cpi\<close> belongs to
  a product with a price observation dated exactly the start date and one dated exactly
  the end date, and its logarithm is that of the ratio of those two prices (the greatest
  of each date); nothing is carried forward. A product lacking either observation has
  no such row, and the returned value is the same as without the product.
\<close>

theorem compute_cpi_exact_endpoints:
  assumes "clickhouse_client self = Serves t"
  shows "(\<forall>j \<in> set (sql_joined s e t).
            observed (prices_tbl t) (j_product_id j) s \<and> observed (prices_tbl t) (j_product_id j) e \<and>
            (\<exists>b r. max_if (prices_tbl t) (j_product_id j) s = Some b \<and>
                   max_if (prices_tbl t) (j_product_id j) e = Some r \<and> 0 < b \<and>
                   j_log_ratio j = np_log (r / b))) \<and>
         (\<not> observed (prices_tbl t) p s \<or> \<not> observed (prices_tbl t) p e \<longrightarrow>
            (\<forall>j \<in> set (sql_joined s e t). j_product_id j \<noteq> p) \<and>
            compute_cpi (self\<lparr>clickhouse_client := Serves (without_product t p)\<rparr>) s e =
            compute_cpi self s e)"
proof -
  have origin: "observed (prices_tbl t) (j_product_id j) s \<and> observed (prices_tbl t) (j_product_id j) e \<and>
            (\<exists>b r. max_if (prices_tbl t) (j_product_id j) s = Some b \<and>
                   max_if (prices_tbl t) (j_product_id j) e = Some r \<and> 0 < b \<and>
                   j_log_ratio j = np_log (r / b))"
    if "j \<in> set (sql_joined s e t)" for j
  proof -
    from joined_row_origin[OF that] obtain pd where
      pd: "pd \<in> set (sql_price_data s e t)" "pd_product_id pd = j_product_id j"
      "sql_log_ratio pd = Some (j_log_ratio j)" by blast
    from price_data_observed[OF pd(1,3)] price_data_log_ratio[OF pd(1,3)] pd(2)
    show ?thesis by simp
  qed
  have absent: "(\<forall>j \<in> set (sql_joined s e t). j_product_id j \<noteq> p) \<and>
      compute_cpi (self\<lparr>clickhouse_client := Serves (without_product t p)\<rparr>) s e =
      compute_cpi self s e"
    if miss: "\<not> observed (prices_tbl t) p s \<or> \<not> observed (prices_tbl t) p e"
  proof -
    from sql_joined_without_product[OF miss]
    have "cpi_query s e (without_product t p) = cpi_query s e t"
      by (simp add: cpi_query_def)
    then have "compute_cpi (self\<lparr>clickhouse_client := Serves (without_product t p)\<rparr>) s e =
        compute_cpi self s e"
      using assms by (simp add: compute_cpi_def execute_clickhouse_query_def)
    moreover have "\<forall>j \<in> set (sql_joined s e t). j_product_id j \<noteq> p"
      using origin miss by blast
    ultimately show ?thesis by simp
  qed
  show ?thesis using origin absent by blast
qed

theorem compute_cpi_exact_endpoints_witness:
  "clickhouse_client carry_calculator = Serves carry_tables \<and>
   observed (prices_tbl carry_tables) 1 0 \<and> \<not> observed (prices_tbl carry_tables) 1 1 \<and>
   map j_product_id (sql_joined 0 1 carry_tables) = [2] \<and>
   compute_cpi (carry_calculator\<lparr>clickhouse_client := Serves (without_product carry_tables 1)\<rparr>) 0 1 =
     ([], Some (Fin (42 / 100))) \<and>
   compute_cpi carry_calculator 0 1 = ([], Some (Fin (42 / 100)))"
proof -
  have c: "clickhouse_client carry_calculator = Serves carry_tables"
    by (simp add: carry_calculator_def)
  have o0: "observed (prices_tbl carry_tables) 1 0"
    by (simp add: observed_def carry_tables_def)
  have o1: "\<not> observed (prices_tbl carry_tables) 1 1"
    by (simp add: observed_def carry_tables_def)
  have j: "map j_product_id (sql_joined 0 1 carry_tables) = [2]"
    by (simp add: sql_defs carry_tables_def scenario_defs)
  have v: "compute_cpi carry_calculator 0 1 = ([], Some (Fin (42 / 100)))"
    by (simp add: sql_defs carry_calculator_def carry_tables_def scenario_defs)
  from compute_cpi_exact_endpoints[OF c, of 0 1 1] o1
  have "compute_cpi (carry_calculator\<lparr>clickhouse_client := Serves (without_product carry_tables 1)\<rparr>) 0 1 =
      compute_cpi carry_calculator 0 1"
    by blast
  then show ?thesis using c o0 o1 j v by simp
qed

end
